theory Spec2Isabelle
  imports Main "HOL-Library.Sublist"
begin

section \<open>JavaScript errors\<close>

text \<open>
  The sources are JavaScript. A \<^verbatim>\<open>throw\<close> (and the rejection of the promise of an
  \<^verbatim>\<open>async\<close> function) is the left injection of a sum: \<open>js_error + 'a\<close>.
  Reading a property of \<^verbatim>\<open>undefined\<close> and calling a value that is not a function throw
  \<^verbatim>\<open>TypeError\<close>; reading an identifier that no scope declares throws
  \<^verbatim>\<open>ReferenceError\<close>.
\<close>

datatype js_error = TypeError | ReferenceError

section \<open>The device mapper (src/lib/state.js, class DeviceMapper)\<close>

subsection \<open>Vendor devices\<close>

text \<open>
  A vendor device as \<^verbatim>\<open>processDevices\<close> hands it to the mapper. \<open>cls\<close> is the class the
  \<^verbatim>\<open>instanceof\<close> tests of \<^verbatim>\<open>mapDevice\<close> and \<^verbatim>\<open>getDeviceId\<close> see.
  Every descriptor of \<^verbatim>\<open>allDevices\<close> carries a \<^verbatim>\<open>data\<close> object (the three vendor
  classes, the alarm devices and the synthesized \<^verbatim>\<open>location.mode\<close> descriptor all do), so
  \<open>data\<close> is a field. \<open>parentZid = None\<close> is a \<^verbatim>\<open>data\<close> object without an own
  property \<^verbatim>\<open>parentZid\<close>; identifiers are strings, compared by \<^verbatim>\<open>===\<close>.
\<close>

datatype device_class = RingCamera | RingChime | RingIntercom | RingDevice

record device_data =
  parentZid :: "string option"
  device_id :: string

record device =
  cls :: device_class
  dev_id :: string
  deviceType :: string
  categoryId :: "int option"
  tags :: "string list option"
  data :: device_data

record event =
  source_id :: string

text \<open>
  \<^verbatim>\<open>RingDeviceType\<close> is an enum of the vendor client library, not of this repository.
  The mapper only uses its members as keys, so the enum is a parameter: a function from
  the member names the mapper mentions to their string values.
\<close>

datatype rdt =
    RDT_SecurityPanel | RDT_ContactSensor | RDT_RetrofitZone | RDT_TiltSensor
  | RDT_GlassbreakSensor | RDT_MotionSensor | RDT_Sensor
  | RDT_FloodFreezeSensor | RDT_SmokeAlarm | RDT_CoAlarm | RDT_SmokeCoListener
  | RDT_TemperatureSensor
  | RDT_BeamsMotionSensor | RDT_BeamsDevice | RDT_BeamsMultiLevelSwitch
  | RDT_BeamsTransformerSwitch | RDT_BeamsLightGroupSwitch
  | RDT_Switch | RDT_MultiLevelSwitch | RDT_Thermostat | RDT_WaterValve
  | RDT_BaseStation | RDT_RangeExtender | RDT_RingNetAdapter
  | RDT_Keypad | RDT_BeamsSwitch

type_synonym RingDeviceType = "rdt \<Rightarrow> string"

subsection \<open>Device info and the result of mapping\<close>

text \<open>
  The object \<^verbatim>\<open>buildDeviceInfo\<close> returns. An optional own property is an option:
  \<open>parentDevice = None\<close> is no property, \<open>Some None\<close> is the property holding
  \<^verbatim>\<open>undefined\<close> (what \<^verbatim>\<open>Array.prototype.find\<close> returns when nothing matches),
  \<open>Some (Some d)\<close> the property holding device \<open>d\<close>.
\<close>

record deviceInfo =
  device :: device
  childDevices :: "device list option"
  parentDevice :: "device option option"
  securityPanel :: "device option option"
  bypassCapableDevices :: "device list option"

text \<open>The wrapper classes state.js imports from \<^verbatim>\<open>../devices/\<close>.\<close>

datatype wrapper_class =
    Camera | Chime | Intercom
  | SecurityPanel | BinarySensor
  | FloodFreezeSensor | SmokeAlarm | CoAlarm | SmokeCoListener | TemperatureSensor
  | Beam | BeamOutdoorPlug
  | Switch | Fan | MultiLevelSwitch | Thermostat | Valve
  | BaseStation | RangeExtender | Bridge
  | Keypad | PanicButton
  | Lock
  | ModesPanel | Siren

text \<open>
  What \<^verbatim>\<open>mapDevice\<close> can return: \<open>New C info\<close> is \<^verbatim>\<open>new C(deviceInfo)\<close>,
  \<open>NewCamera info evs\<close> is \<^verbatim>\<open>new Camera(deviceInfo, events)\<close>, \<open>Ignore\<close> the string
  \<^verbatim>\<open>'ignore'\<close> and \<open>NotSupported\<close> the string \<^verbatim>\<open>'not-supported'\<close>. \<open>Other\<close> holds
  the values that are none of these; they come from the members the lookup table
  inherits from \<^verbatim>\<open>Object.prototype\<close> (see \<open>Object_prototype\<close> below): a new empty
  object, the string \<^verbatim>\<open>'[object Undefined]'\<close>, and \<^verbatim>\<open>false\<close>.
\<close>

datatype js_other = EmptyObject | ObjectUndefinedString | JsFalse

datatype mapped =
    New wrapper_class deviceInfo
  | NewCamera deviceInfo "event list"
  | Ignore
  | NotSupported
  | Other js_other

fun is_wrapper :: "mapped \<Rightarrow> bool" where
  "is_wrapper (New c info) = True"
| "is_wrapper (NewCamera info evs) = True"
| "is_wrapper m = False"

fun wrapper_info :: "mapped \<Rightarrow> deviceInfo option" where
  "wrapper_info (New c info) = Some info"
| "wrapper_info (NewCamera info evs) = Some info"
| "wrapper_info m = None"

subsection \<open>buildDeviceInfo, hasChildDevices, filterDeviceEvents\<close>

definition hasChildDevices :: "device \<Rightarrow> device list \<Rightarrow> bool" where
  "hasChildDevices dev allDevices =
     list_ex (\<lambda>d. parentZid (data d) = Some (dev_id dev)) allDevices"

definition buildDeviceInfo :: "device \<Rightarrow> device list \<Rightarrow> deviceInfo" where
  "buildDeviceInfo dev allDevices =
     \<lparr> device = dev,
       childDevices =
         (if hasChildDevices dev allDevices
          then Some (filter (\<lambda>d. parentZid (data d) = Some (dev_id dev)) allDevices)
          else None),
       parentDevice =
         (case parentZid (data dev) of
            None \<Rightarrow> None
          | Some z \<Rightarrow> Some (find (\<lambda>d. dev_id d = z) allDevices)),
       securityPanel = None,
       bypassCapableDevices = None \<rparr>"

definition filterDeviceEvents :: "device \<Rightarrow> event list \<Rightarrow> event list" where
  "filterDeviceEvents dev events = filter (\<lambda>e. source_id e = dev_id dev) events"

subsection \<open>The creators of mapByDeviceType\<close>

definition getBypassCapableDevices :: "RingDeviceType \<Rightarrow> device list \<Rightarrow> device list" where
  "getBypassCapableDevices T allDevices =
     (let bypassableTypes =
            [T RDT_ContactSensor, T RDT_RetrofitZone, T RDT_MotionSensor,
             T RDT_TiltSensor, T RDT_GlassbreakSensor]
      in filter (\<lambda>d. deviceType d \<in> set bypassableTypes) allDevices)"

definition createSecurityDevice ::
  "RingDeviceType \<Rightarrow> deviceInfo \<Rightarrow> device list \<Rightarrow> js_error + mapped" where
  "createSecurityDevice T info allDevices =
     Inr (New BinarySensor
       (info\<lparr>securityPanel :=
          Some (find (\<lambda>d. deviceType d = T RDT_SecurityPanel) allDevices)\<rparr>))"

text \<open>
  \<^verbatim>\<open>deviceInfo.hasOwnProperty('parentDevice') && deviceInfo.parentDevice.deviceType === ...\<close>:
  with the property present and \<^verbatim>\<open>undefined\<close>, the read of \<^verbatim>\<open>.deviceType\<close> throws.
\<close>

definition handleTemperatureSensor :: "RingDeviceType \<Rightarrow> deviceInfo \<Rightarrow> js_error + mapped" where
  "handleTemperatureSensor T info =
     (case parentDevice info of
        None \<Rightarrow> Inr (New TemperatureSensor info)
      | Some None \<Rightarrow> Inl TypeError
      | Some (Some p) \<Rightarrow>
          if deviceType p = T RDT_Thermostat then Inr Ignore
          else Inr (New TemperatureSensor info))"

text \<open>
  A property value of the table \<^verbatim>\<open>creators\<close>: \<open>Fn r\<close> is a function whose call
  (with no arguments and no receiver) gives \<open>r\<close>, \<open>NonFn\<close> a truthy value that is not
  callable, \<open>Undef\<close> is \<^verbatim>\<open>undefined\<close>.
\<close>

datatype js_prop = Fn "js_error + mapped" | NonFn | Undef

text \<open>
  The object literal \<^verbatim>\<open>creators\<close>, its properties in source order. The accessor
  \<^verbatim>\<open>get lock()\<close> is the entry \<open>''lock''\<close>: its value is the Lock creator or
  \<^verbatim>\<open>undefined\<close>.
\<close>

definition creators ::
  "RingDeviceType \<Rightarrow> device \<Rightarrow> deviceInfo \<Rightarrow> device list \<Rightarrow> (string \<times> js_prop) list" where
  "creators T dev info allDevices =
   [ \<comment> \<open>Security sensors\<close>
     (T RDT_SecurityPanel,
        Fn (Inr (New SecurityPanel
          (info\<lparr>bypassCapableDevices := Some (getBypassCapableDevices T allDevices)\<rparr>)))),
     (T RDT_ContactSensor, Fn (createSecurityDevice T info allDevices)),
     (T RDT_RetrofitZone, Fn (createSecurityDevice T info allDevices)),
     (T RDT_TiltSensor, Fn (createSecurityDevice T info allDevices)),
     (T RDT_GlassbreakSensor, Fn (createSecurityDevice T info allDevices)),
     (T RDT_MotionSensor, Fn (createSecurityDevice T info allDevices)),
     (T RDT_Sensor, Fn (createSecurityDevice T info allDevices)),
     \<comment> \<open>Environmental sensors\<close>
     (T RDT_FloodFreezeSensor, Fn (Inr (New FloodFreezeSensor info))),
     (T RDT_SmokeAlarm, Fn (Inr (New SmokeAlarm info))),
     (T RDT_CoAlarm, Fn (Inr (New CoAlarm info))),
     (T RDT_SmokeCoListener, Fn (Inr (New SmokeCoListener info))),
     (T RDT_TemperatureSensor, Fn (handleTemperatureSensor T info)),
     \<comment> \<open>Ring Smart Lighting devices\<close>
     (T RDT_BeamsMotionSensor, Fn (Inr (New Beam info))),
     (T RDT_BeamsDevice, Fn (Inr (New BeamOutdoorPlug info))),
     (T RDT_BeamsMultiLevelSwitch, Fn (Inr (New Beam info))),
     (T RDT_BeamsTransformerSwitch, Fn (Inr (New Beam info))),
     (T RDT_BeamsLightGroupSwitch, Fn (Inr (New Beam info))),
     \<comment> \<open>Switches and controls\<close>
     (T RDT_Switch, Fn (Inr (New Switch info))),
     (T RDT_MultiLevelSwitch,
        Fn (Inr (if categoryId dev = Some 17 then New Fan info else New MultiLevelSwitch info))),
     (T RDT_Thermostat, Fn (Inr (New Thermostat info))),
     (T RDT_WaterValve, Fn (Inr (New Valve info))),
     \<comment> \<open>Base station and network devices\<close>
     (T RDT_BaseStation, Fn (Inr (New BaseStation info))),
     (T RDT_RangeExtender, Fn (Inr (New RangeExtender info))),
     (T RDT_RingNetAdapter,
        Fn (Inr (if (case tags dev of None \<Rightarrow> False | Some ts \<Rightarrow> ''hidden'' \<in> set ts)
                 then Ignore else New Bridge info))),
     \<comment> \<open>Input devices\<close>
     (T RDT_Keypad, Fn (Inr (New Keypad info))),
     (''security-remote'', Fn (Inr (New PanicButton info))),
     \<comment> \<open>Locks\<close>
     (''lock'',
        if prefix ''lock.'' (deviceType dev) \<or> deviceType dev = ''lock''
        then Fn (Inr (New Lock info)) else Undef),
     \<comment> \<open>Location mode and sirens\<close>
     (''location.mode'', Fn (Inr (New ModesPanel info))),
     (''siren'', Fn (Inr (New Siren info))),
     (''siren.outdoor-strobe'', Fn (Inr (New Siren info))),
     \<comment> \<open>Ignored devices\<close>
     (T RDT_BeamsSwitch, Fn (Inr Ignore)),
     (''access-code'', Fn (Inr Ignore)),
     (''access-code.vault'', Fn (Inr Ignore)),
     (''adapter.sidewalk'', Fn (Inr Ignore)),
     (''adapter.shadow'', Fn (Inr Ignore)),
     (''adapter.zigbee'', Fn (Inr Ignore)),
     (''adapter.zwave'', Fn (Inr Ignore)),
     (''thermostat-operating-status'', Fn (Inr Ignore)) ]"

text \<open>
  \<^verbatim>\<open>creators\<close> is an object literal, so its prototype is \<^verbatim>\<open>Object.prototype\<close> and a
  lookup \<^verbatim>\<open>creators[key]\<close> that finds no own property finds the members inherited
  from it. state.js is an ES module (strict code), so \<^verbatim>\<open>deviceCreator()\<close> calls with
  receiver \<^verbatim>\<open>undefined\<close>: \<^verbatim>\<open>Object()\<close> returns a new empty object,
  \<^verbatim>\<open>Object.prototype.toString\<close> returns \<^verbatim>\<open>'[object Undefined]'\<close>,
  \<^verbatim>\<open>isPrototypeOf\<close> returns \<^verbatim>\<open>false\<close> for a missing argument, the members that convert
  the receiver to an object throw, and \<^verbatim>\<open>__proto__\<close> reads as \<^verbatim>\<open>Object.prototype\<close>
  itself, an object that is not callable.
\<close>

definition Object_prototype :: "(string \<times> js_prop) list" where
  "Object_prototype =
   [ (''constructor'', Fn (Inr (Other EmptyObject))),
     (''__proto__'', NonFn),
     (''hasOwnProperty'', Fn (Inl TypeError)),
     (''isPrototypeOf'', Fn (Inr (Other JsFalse))),
     (''propertyIsEnumerable'', Fn (Inl TypeError)),
     (''toLocaleString'', Fn (Inl TypeError)),
     (''toString'', Fn (Inr (Other ObjectUndefinedString))),
     (''valueOf'', Fn (Inl TypeError)),
     (''__defineGetter__'', Fn (Inl TypeError)),
     (''__defineSetter__'', Fn (Inl TypeError)),
     (''__lookupGetter__'', Fn (Inl TypeError)),
     (''__lookupSetter__'', Fn (Inl TypeError)) ]"

text \<open>
  Property read on an object literal: of two properties with one key the later one
  stands; a key that is no own property is looked up in the prototype.
\<close>

definition js_get :: "(string \<times> js_prop) list \<Rightarrow> string \<Rightarrow> js_prop" where
  "js_get obj k =
     (case map_of (rev obj) k of
        Some v \<Rightarrow> v
      | None \<Rightarrow> (case map_of Object_prototype k of Some v \<Rightarrow> v | None \<Rightarrow> Undef))"

text \<open>
  \<^verbatim>\<open>const deviceCreator = creators[device.deviceType] || creators.lock\<close>,
  \<^verbatim>\<open>return deviceCreator ? deviceCreator() : "not-supported"\<close>.
\<close>

definition mapByDeviceType ::
  "RingDeviceType \<Rightarrow> device \<Rightarrow> deviceInfo \<Rightarrow> device list \<Rightarrow> js_error + mapped" where
  "mapByDeviceType T dev info allDevices =
     (let cs = creators T dev info allDevices;
          byType = js_get cs (deviceType dev);
          deviceCreator = (if byType \<noteq> Undef then byType else js_get cs ''lock'')
      in case deviceCreator of
           Undef \<Rightarrow> Inr NotSupported
         | Fn r \<Rightarrow> r
         | NonFn \<Rightarrow> Inl TypeError)"

definition mapDevice ::
  "RingDeviceType \<Rightarrow> device \<Rightarrow> device list \<Rightarrow> event list \<Rightarrow> js_error + mapped" where
  "mapDevice T dev allDevices events =
     (let info = buildDeviceInfo dev allDevices in
      if cls dev = RingCamera then Inr (NewCamera info (filterDeviceEvents dev events))
      else if cls dev = RingChime then Inr (New Chime info)
      else if cls dev = RingIntercom then Inr (New Intercom info)
      else mapByDeviceType T dev info allDevices)"

text \<open>
  One value of the parameter, for evaluating the mapper on concrete devices: the
  strings of the vendor library's enum (beam.js and contact-sensor.js compare device
  types against the same strings). The theorems stated for every \<open>T\<close> do not
  depend on it.
\<close>

fun ringDeviceType :: RingDeviceType where
  "ringDeviceType RDT_SecurityPanel = ''security-panel''"
| "ringDeviceType RDT_ContactSensor = ''sensor.contact''"
| "ringDeviceType RDT_RetrofitZone = ''sensor.zone''"
| "ringDeviceType RDT_TiltSensor = ''sensor.tilt''"
| "ringDeviceType RDT_GlassbreakSensor = ''sensor.glassbreak''"
| "ringDeviceType RDT_MotionSensor = ''sensor.motion''"
| "ringDeviceType RDT_Sensor = ''sensor''"
| "ringDeviceType RDT_FloodFreezeSensor = ''sensor.flood-freeze''"
| "ringDeviceType RDT_SmokeAlarm = ''alarm.smoke''"
| "ringDeviceType RDT_CoAlarm = ''alarm.co''"
| "ringDeviceType RDT_SmokeCoListener = ''listener.smoke-co''"
| "ringDeviceType RDT_TemperatureSensor = ''sensor.temperature''"
| "ringDeviceType RDT_BeamsMotionSensor = ''motion-sensor.beams''"
| "ringDeviceType RDT_BeamsDevice = ''device.beams''"
| "ringDeviceType RDT_BeamsMultiLevelSwitch = ''switch.multilevel.beams''"
| "ringDeviceType RDT_BeamsTransformerSwitch = ''switch.transformer.beams''"
| "ringDeviceType RDT_BeamsLightGroupSwitch = ''group.light-group.beams''"
| "ringDeviceType RDT_Switch = ''switch''"
| "ringDeviceType RDT_MultiLevelSwitch = ''switch.multilevel''"
| "ringDeviceType RDT_Thermostat = ''temperature-control.thermostat''"
| "ringDeviceType RDT_WaterValve = ''valve.water''"
| "ringDeviceType RDT_BaseStation = ''hub.redsky''"
| "ringDeviceType RDT_RangeExtender = ''range-extender.zwave''"
| "ringDeviceType RDT_RingNetAdapter = ''adapter.ringnet''"
| "ringDeviceType RDT_Keypad = ''security-keypad''"
| "ringDeviceType RDT_BeamsSwitch = ''switch.beams''"

text \<open>
  A device that is no camera, chime or intercom, with identifier \<open>i\<close>, type \<open>t\<close>
  and \<^verbatim>\<open>data.parentZid\<close> \<open>p\<close>, for the concrete devices below.
\<close>

definition mkDevice :: "string \<Rightarrow> string \<Rightarrow> string option \<Rightarrow> device" where
  "mkDevice i t p =
     \<lparr> cls = RingDevice, dev_id = i, deviceType = t, categoryId = None, tags = None,
       data = \<lparr> parentZid = p, device_id = i \<rparr> \<rparr>"

text \<open>
  Helpers for stating what a creator does to the links of the device info: a wrapper
  built from \<open>info\<close> keeps its device, child list and parent.
\<close>

definition same_links :: "deviceInfo \<Rightarrow> deviceInfo \<Rightarrow> bool" where
  "same_links i info =
     (device i = device info \<and> childDevices i = childDevices info \<and>
      parentDevice i = parentDevice info)"

fun links_kept :: "deviceInfo \<Rightarrow> js_prop \<Rightarrow> bool" where
  "links_kept info (Fn (Inr w)) =
     (case wrapper_info w of None \<Rightarrow> True | Some i \<Rightarrow> same_links i info)"
| "links_kept info v = True"

section \<open>Device discovery (src/lib/state.js, RingMqtt.processDevices)\<close>

definition getDeviceId :: "device \<Rightarrow> string" where
  "getDeviceId dev =
     (if cls dev = RingCamera \<or> cls dev = RingChime \<or> cls dev = RingIntercom
      then device_id (data dev) else dev_id dev)"

text \<open>
  Modelled from the spec: the field \<^verbatim>\<open>deviceId\<close> of a wrapper. The constructors of the
  wrapper base classes are not among the sources; the spec keys a wrapper by its vendor
  device identifier, which is what \<^verbatim>\<open>getDeviceId\<close> computes for the wrapped device.
  The other values a mapping can return have no such field (\<^verbatim>\<open>undefined\<close>).
\<close>

fun wrapper_deviceId :: "mapped \<Rightarrow> string option" where
  "wrapper_deviceId (New c info) = Some (getDeviceId (device info))"
| "wrapper_deviceId (NewCamera info evs) = Some (getDeviceId (device info))"
| "wrapper_deviceId m = None"

text \<open>
  \<^verbatim>\<open>mappedDevice && mappedDevice !== 'ignore'\<close> (after \<^verbatim>\<open>'not-supported'\<close> was tested):
  the values \<^verbatim>\<open>processDevices\<close> appends to the registry.
\<close>

fun registers :: "mapped \<Rightarrow> bool" where
  "registers (New c info) = True"
| "registers (NewCamera info evs) = True"
| "registers Ignore = False"
| "registers NotSupported = False"
| "registers (Other EmptyObject) = True"
| "registers (Other ObjectUndefinedString) = True"
| "registers (Other JsFalse) = False"

text \<open>
  \<^verbatim>\<open>logNewDevice\<close> and \<^verbatim>\<open>logExistingDevice\<close> only write to the debug log, which is
  not modelled; \<^verbatim>\<open>logDeviceDetails\<close> reads \<^verbatim>\<open>device.deviceData.name\<close>, which throws
  for a value that is no wrapper.
\<close>

fun logDeviceDetails :: "mapped \<Rightarrow> js_error option" where
  "logDeviceDetails (New c info) = None"
| "logDeviceDetails (NewCamera info evs) = None"
| "logDeviceDetails m = Some TypeError"

text \<open>
  The state of a discovery run: \<open>registry\<close> is \<^verbatim>\<open>this.devices$.value\<close>,
  \<open>unsupportedDevices\<close> the local list of the same name, and \<open>mapCalls\<close> records, in
  order, the devices \<^verbatim>\<open>DeviceMapper.mapDevice\<close> was called for (a trace; the source has
  no such field).
\<close>

record discovery =
  registry :: "mapped list"
  unsupportedDevices :: "string list"
  mapCalls :: "device list"

text \<open>
  One iteration of \<^verbatim>\<open>for (const device of allDevices)\<close> is two synchronous segments,
  separated by \<^verbatim>\<open>await DeviceMapper.mapDevice(device, allDevices, events)\<close>.

  The first segment computes the identifier and looks it up in the registry. When an
  entry is found the iteration ends there, with \<^verbatim>\<open>logExistingDevice\<close>. Otherwise
  \<^verbatim>\<open>mapDevice\<close> is called: it is an \<^verbatim>\<open>async\<close> function without an \<^verbatim>\<open>await\<close> of its own, so
  its body runs to its end within the call and the promise it returns is already
  settled, fulfilled with the mapped value or rejected with the exception. The caller
  then suspends at its \<^verbatim>\<open>await\<close>, holding that promise.
\<close>

datatype iteration =
    Finished "js_error option"
  | Awaiting "js_error + mapped"

definition beforeAwait ::
  "RingDeviceType \<Rightarrow> device list \<Rightarrow> event list \<Rightarrow> device \<Rightarrow> discovery
     \<Rightarrow> iteration \<times> discovery" where
  "beforeAwait T allDevices events dev st =
     (let deviceId = getDeviceId dev in
      case find (\<lambda>d. wrapper_deviceId d = Some deviceId) (registry st) of
        Some existingDevice \<Rightarrow> (Finished (logDeviceDetails existingDevice), st)
      | None \<Rightarrow>
          (Awaiting (mapDevice T dev allDevices events),
           st\<lparr>mapCalls := mapCalls st @ [dev]\<rparr>))"

text \<open>
  The second segment runs when the call is resumed, in the state the registry has by
  then: a rejected promise throws, \<^verbatim>\<open>'not-supported'\<close> is noted, a truthy value other
  than \<^verbatim>\<open>'ignore'\<close> is appended to the registry as it is at that moment
  (\<^verbatim>\<open>this.devices$.next([...this.devices$.value, mappedDevice])\<close>) and logged. The
  result pairs the exception, if one was thrown, with the state reached: what was
  pushed before a throw stays pushed.
\<close>

definition afterAwait ::
  "device \<Rightarrow> js_error + mapped \<Rightarrow> discovery \<Rightarrow> js_error option \<times> discovery" where
  "afterAwait dev outcome st =
     (case outcome of
        Inl err \<Rightarrow> (Some err, st)
      | Inr mappedDevice \<Rightarrow>
          if mappedDevice = NotSupported
          then (None, st\<lparr>unsupportedDevices := unsupportedDevices st @ [deviceType dev]\<rparr>)
          else if registers mappedDevice
          then (logDeviceDetails mappedDevice,
                st\<lparr>registry := registry st @ [mappedDevice]\<rparr>)
          else (None, st))"

text \<open>
  One iteration that nothing else interleaves with: the call is resumed in the state
  in which it suspended.
\<close>

definition processDevice ::
  "RingDeviceType \<Rightarrow> device list \<Rightarrow> event list \<Rightarrow> device \<Rightarrow> discovery
     \<Rightarrow> js_error option \<times> discovery" where
  "processDevice T allDevices events dev st =
     (case beforeAwait T allDevices events dev st of
        (Finished r, st1) \<Rightarrow> (r, st1)
      | (Awaiting outcome, st1) \<Rightarrow> afterAwait dev outcome st1)"

text \<open>The loop of a call of \<^verbatim>\<open>processDevices\<close> that nothing else interleaves with.\<close>

fun processLoop ::
  "RingDeviceType \<Rightarrow> device list \<Rightarrow> event list \<Rightarrow> device list \<Rightarrow> discovery
     \<Rightarrow> js_error option \<times> discovery" where
  "processLoop T allDevices events [] st = (None, st)"
| "processLoop T allDevices events (dev # rest) st =
     (case processDevice T allDevices events dev st of
        (Some err, st') \<Rightarrow> (Some err, st')
      | (None, st') \<Rightarrow> processLoop T allDevices events rest st')"

text \<open>The argument \<^verbatim>\<open>{ devices, cameras, chimes, intercoms, events }\<close>.\<close>

record location_devices =
  devices :: "device list"
  cameras :: "device list"
  chimes :: "device list"
  intercoms :: "device list"
  events :: "event list"



subsection \<open>Calls of processDevices that overlap\<close>

text \<open>
  \<^verbatim>\<open>processDevices\<close> is an \<^verbatim>\<open>async\<close> method of the one \<^verbatim>\<open>RingMqtt\<close> object, and nothing in
  the class keeps a second call from starting while a first one is suspended: all
  calls read and replace the same \<^verbatim>\<open>this.devices$\<close>. A call runs synchronously from
  one \<^verbatim>\<open>await\<close> to the next. \<open>loopUntilAwait\<close> is the segment that starts at the head
  of the loop and runs through the iterations that find their device in the registry,
  up to the first \<^verbatim>\<open>await DeviceMapper.mapDevice\<close>, the end of the loop or an exception.
\<close>

datatype segment_end =
    Returned
  | Threw js_error
  | Suspended device "js_error + mapped" "device list"

fun loopUntilAwait ::
  "RingDeviceType \<Rightarrow> device list \<Rightarrow> event list \<Rightarrow> device list \<Rightarrow> discovery
     \<Rightarrow> segment_end \<times> discovery" where
  "loopUntilAwait T allDevices evs [] st = (Returned, st)"
| "loopUntilAwait T allDevices evs (dev # rest) st =
     (case beforeAwait T allDevices evs dev st of
        (Finished (Some err), st') \<Rightarrow> (Threw err, st')
      | (Finished None, st') \<Rightarrow> loopUntilAwait T allDevices evs rest st'
      | (Awaiting outcome, st') \<Rightarrow> (Suspended dev outcome rest, st'))"











subsection \<open>The invariant of the registry, and concrete devices\<close>



text \<open>Concrete devices for the evaluations below.\<close>

definition orphan_sensor :: device where
  "orphan_sensor = mkDevice ''s1'' ''sensor.temperature'' (Some ''gone'')"

definition constructor_device :: device where
  "constructor_device = mkDevice ''d1'' ''constructor'' None"

definition thermostat_dev :: device where
  "thermostat_dev = mkDevice ''t1'' ''temperature-control.thermostat'' None"

definition thermostat_sensor :: device where
  "thermostat_sensor = mkDevice ''s2'' ''sensor.temperature'' (Some ''t1'')"

definition station_dev :: device where
  "station_dev = mkDevice ''b1'' ''hub.redsky'' None"

definition contact_dev :: device where
  "contact_dev = mkDevice ''c1'' ''sensor.contact'' (Some ''b1'')"

definition spare_switch :: device where
  "spare_switch = mkDevice ''w1'' ''switch.beams'' None"



section \<open>The intercom wrapper (src/devices/intercom.js)\<close>

text \<open>
  \<^verbatim>\<open>this.data\<close> of the wrapper: the lock and the ding entity, each with its state, the
  state last published (\<^verbatim>\<open>null\<close> is \<open>None\<close>) and the handle of its pending timeout
  (\<^verbatim>\<open>false\<close> is \<open>None\<close>).
\<close>

datatype lock_value = LOCKED | UNLOCKED

datatype ding_value = ON | OFF

text \<open>The two functions the wrapper passes to \<^verbatim>\<open>setTimeout\<close>.\<close>

datatype timer_callback = DingOff | LockRevert

record timer =
  timer_id :: nat
  callback :: timer_callback
  delay :: nat

text \<open>
  The object \<^verbatim>\<open>publishAttributes\<close> serialises: \<^verbatim>\<open>lastUpdate\<close>, and the two optional
  properties.
\<close>

record attributes =
  lastUpdate :: nat
  attr_batteryLevel :: "int option"
  firmwareVersion :: "string option"

datatype intercom_entity = DingEntity | LockEntity | InfoEntity | AttributeEntity string

datatype payload = DingPayload ding_value | LockPayload lock_value | AttrPayload attributes

text \<open>
  The wrapper together with the part of its environment it acts on: \<open>timers\<close> are the
  pending timeouts of the event loop, \<open>next_timer\<close> the next fresh handle, and \<open>mqtt\<close>
  the messages handed to \<^verbatim>\<open>mqttPublish\<close>, oldest first, each with the entity whose
  \<^verbatim>\<open>state_topic\<close> it went to. \<open>batteryLevel\<close>, \<open>has_firemware_version\<close> and
  \<open>firmware_version\<close> are what \<^verbatim>\<open>publishAttributes\<close> reads of the vendor device.
\<close>

record intercom =
  lock_state :: lock_value
  lock_publishedState :: "lock_value option"
  lock_unlockTimeout :: "nat option"
  ding_state :: ding_value
  ding_publishedState :: "ding_value option"
  ding_timeout :: "nat option"
  batteryLevel :: "int option"
  has_firemware_version :: bool
  firmware_version :: "string option"
  timers :: "timer list"
  next_timer :: nat
  mqtt :: "(intercom_entity \<times> payload) list"

text \<open>The constructor; \<open>b\<close>, \<open>hf\<close> and \<open>fw\<close> describe the vendor device.\<close>

definition intercom_new :: "int option \<Rightarrow> bool \<Rightarrow> string option \<Rightarrow> intercom" where
  "intercom_new b hf fw =
     \<lparr> lock_state = LOCKED, lock_publishedState = None, lock_unlockTimeout = None,
       ding_state = OFF, ding_publishedState = None, ding_timeout = None,
       batteryLevel = b, has_firemware_version = hf, firmware_version = fw,
       timers = [], next_timer = 0, mqtt = [] \<rparr>"

definition mqttPublish :: "intercom_entity \<Rightarrow> payload \<Rightarrow> intercom \<Rightarrow> intercom" where
  "mqttPublish ent p s = s\<lparr>mqtt := mqtt s @ [(ent, p)]\<rparr>"

definition setTimeout :: "timer_callback \<Rightarrow> nat \<Rightarrow> intercom \<Rightarrow> nat \<times> intercom" where
  "setTimeout cb ms s =
     (next_timer s,
      s\<lparr>timers := timers s @ [\<lparr>timer_id = next_timer s, callback = cb, delay = ms\<rparr>],
        next_timer := Suc (next_timer s)\<rparr>)"

definition clearTimeout :: "nat \<Rightarrow> intercom \<Rightarrow> intercom" where
  "clearTimeout t s = s\<lparr>timers := filter (\<lambda>x. timer_id x \<noteq> t) (timers s)\<rparr>"

definition publishDingState :: "bool \<Rightarrow> intercom \<Rightarrow> intercom" where
  "publishDingState isPublish s =
     (if Some (ding_state s) \<noteq> ding_publishedState s \<or> isPublish
      then (mqttPublish DingEntity (DingPayload (ding_state s)) s)
             \<lparr>ding_publishedState := Some (ding_state s)\<rparr>
      else s)"

definition publishLockState :: "bool \<Rightarrow> intercom \<Rightarrow> intercom" where
  "publishLockState isPublish s =
     (if Some (lock_state s) \<noteq> lock_publishedState s \<or> isPublish
      then (mqttPublish LockEntity (LockPayload (lock_state s)) s)
             \<lparr>lock_publishedState := Some (lock_state s)\<rparr>
      else s)"

text \<open>
  \<^verbatim>\<open>publishAttributes\<close>: \<open>now\<close> is \<^verbatim>\<open>Date.now()\<close> in milliseconds. A battery level of
  \<^verbatim>\<open>null\<close> or \<^verbatim>\<open>0\<close> is falsy and left out. The firmware version is copied only when the
  device data has a property \<^verbatim>\<open>firemware_version\<close> (the source's spelling).
  \<^verbatim>\<open>publishAttributeEntities\<close> belongs to the base class, which is not among the
  sources: it is the parameter \<open>pae\<close>, the messages it publishes for the attributes.
\<close>

definition intercom_attributes :: "nat \<Rightarrow> intercom \<Rightarrow> attributes" where
  "intercom_attributes now s =
     \<lparr> lastUpdate = now div 1000,
       attr_batteryLevel =
         (case batteryLevel s of None \<Rightarrow> None | Some b \<Rightarrow> if b = 0 then None else Some b),
       firmwareVersion = (if has_firemware_version s then firmware_version s else None) \<rparr>"

definition publishAttributes ::
  "nat \<Rightarrow> (attributes \<Rightarrow> (intercom_entity \<times> payload) list) \<Rightarrow> intercom \<Rightarrow> intercom" where
  "publishAttributes now pae s =
     (let attrs = intercom_attributes now s;
          s1 = mqttPublish InfoEntity (AttrPayload attrs) s
      in s1\<lparr>mqtt := mqtt s1 @ pae attrs\<rparr>)"

text \<open>
  \<^verbatim>\<open>publishState(data)\<close>: \<open>None\<close> is the call without argument, the forced publish.
\<close>

definition publishState ::
  "'d option \<Rightarrow> nat \<Rightarrow> (attributes \<Rightarrow> (intercom_entity \<times> payload) list) \<Rightarrow> intercom
     \<Rightarrow> intercom" where
  "publishState data_arg now pae s =
     (let isPublish = (data_arg = None);
          s1 = publishDingState isPublish s;
          s2 = publishLockState isPublish s1
      in if isPublish then publishAttributes now pae s2 else s2)"

text \<open>
  \<^verbatim>\<open>processDing\<close> and \<^verbatim>\<open>setDoorUnlocked\<close>: clear the pending timeout, set the state,
  publish on change, arm a new timeout.
\<close>

definition processDing :: "intercom \<Rightarrow> intercom" where
  "processDing s =
     (let s1 = (case ding_timeout s of
                  Some t \<Rightarrow> (clearTimeout t s)\<lparr>ding_timeout := None\<rparr>
                | None \<Rightarrow> s);
          s2 = publishDingState False (s1\<lparr>ding_state := ON\<rparr>);
          (t, s3) = setTimeout DingOff 15000 s2
      in s3\<lparr>ding_timeout := Some t\<rparr>)"

definition setDoorUnlocked :: "intercom \<Rightarrow> intercom" where
  "setDoorUnlocked s =
     (let s1 = (case lock_unlockTimeout s of
                  Some t \<Rightarrow> (clearTimeout t s)\<lparr>lock_unlockTimeout := None\<rparr>
                | None \<Rightarrow> s);
          s2 = publishLockState False (s1\<lparr>lock_state := UNLOCKED\<rparr>);
          (t, s3) = setTimeout LockRevert 5000 s2
      in s3\<lparr>lock_unlockTimeout := Some t\<rparr>)"

text \<open>The bodies of the two timeout functions.\<close>

fun run_callback :: "timer_callback \<Rightarrow> intercom \<Rightarrow> intercom" where
  "run_callback DingOff s =
     (publishDingState False (s\<lparr>ding_state := OFF\<rparr>))\<lparr>ding_timeout := None\<rparr>"
| "run_callback LockRevert s =
     (publishLockState False (s\<lparr>lock_state := LOCKED\<rparr>))\<lparr>lock_unlockTimeout := None\<rparr>"

text \<open>
  The event loop runs the timeout with handle \<open>t\<close>: it leaves the pending list and its
  function is called. A handle that is not pending does nothing.
\<close>

definition fire :: "nat \<Rightarrow> intercom \<Rightarrow> intercom" where
  "fire t s =
     (case find (\<lambda>x. timer_id x = t) (timers s) of
        None \<Rightarrow> s
      | Some x \<Rightarrow> run_callback (callback x) (clearTimeout t s))"

text \<open>
  \<^verbatim>\<open>String.prototype.toLowerCase\<close>, restricted to the ASCII letters: \<open>A\<close> to \<open>Z\<close> are
  mapped and every other character is kept. The function of the language also maps
  letters outside ASCII, some of them onto ASCII letters (the Kelvin sign U+212A
  becomes \<open>k\<close>), so for a command with such a character \<open>setLockState\<close> below can take
  another branch than the source does. The properties proved of the commands hold of
  every branch.
\<close>

definition lower_char :: "char \<Rightarrow> char" where
  "lower_char c =
     (case map_of (zip ''ABCDEFGHIJKLMNOPQRSTUVWXYZ'' ''abcdefghijklmnopqrstuvwxyz'') c of
        Some l \<Rightarrow> l
      | None \<Rightarrow> c)"

definition toLowerCase :: "string \<Rightarrow> string" where
  "toLowerCase str = map lower_char str"

text \<open>
  \<^verbatim>\<open>setLockState\<close>. In the case \<^verbatim>\<open>'lock'\<close> the source compares
  (\<^verbatim>\<open>this.data.lock.state === 'LOCKED'\<close>) where an assignment would set the state, so the
  state stays as it is. In the case \<^verbatim>\<open>'unlock'\<close> \<open>unlock_ok\<close> tells whether the vendor
  call \<^verbatim>\<open>this.device.unlock()\<close> resolved; the step is taken when it settles.
\<close>

definition setLockState :: "string \<Rightarrow> bool \<Rightarrow> intercom \<Rightarrow> intercom" where
  "setLockState message unlock_ok s =
     (let command = toLowerCase message in
      if command = ''lock'' then
        (if lock_state s = UNLOCKED then publishLockState False s else s)
      else if command = ''unlock'' then
        (if unlock_ok then setDoorUnlocked s else s)
      else s)"

definition processCommand :: "string \<Rightarrow> string \<Rightarrow> bool \<Rightarrow> intercom \<Rightarrow> intercom" where
  "processCommand command message unlock_ok s =
     (if command = ''lock/command'' then setLockState message unlock_ok s else s)"

text \<open>
  What can happen to a wrapper: the vendor device reports an unlock or a ding, a pending
  timeout runs, a command arrives over MQTT, the state is published (forced or not).
\<close>

datatype intercom_event =
    OnUnlocked
  | OnDing
  | TimerFires nat
  | Command string string bool
  | PublishState bool nat

definition intercom_step ::
  "(attributes \<Rightarrow> (intercom_entity \<times> payload) list) \<Rightarrow> intercom_event \<Rightarrow> intercom
     \<Rightarrow> intercom" where
  "intercom_step pae e s =
     (case e of
        OnUnlocked \<Rightarrow> setDoorUnlocked s
      | OnDing \<Rightarrow> processDing s
      | TimerFires t \<Rightarrow> fire t s
      | Command c m ok \<Rightarrow> processCommand c m ok s
      | PublishState forced now \<Rightarrow>
          publishState (if forced then None else Some ()) now pae s)"

fun intercom_run ::
  "(attributes \<Rightarrow> (intercom_entity \<times> payload) list) \<Rightarrow> intercom_event list \<Rightarrow> intercom
     \<Rightarrow> intercom" where
  "intercom_run pae [] s = s"
| "intercom_run pae (e # es) s = intercom_run pae es (intercom_step pae e s)"

text \<open>The pending timeouts of one entity.\<close>

definition pending :: "timer_callback \<Rightarrow> intercom \<Rightarrow> timer list" where
  "pending cb s = filter (\<lambda>x. callback x = cb) (timers s)"

text \<open>
  The invariant of the wrapper: the pending timeouts of an entity are exactly the one
  its handle names (none when the handle is \<^verbatim>\<open>false\<close>), with the fixed delay; the
  transient state (UNLOCKED, ON) is held exactly while a timeout is pending; handles are
  fresh.
\<close>

definition timers_ok :: "intercom \<Rightarrow> bool" where
  "timers_ok s =
     (pending LockRevert s =
        (case lock_unlockTimeout s of
           None \<Rightarrow> []
         | Some t \<Rightarrow> [\<lparr>timer_id = t, callback = LockRevert, delay = 5000\<rparr>]) \<and>
      pending DingOff s =
        (case ding_timeout s of
           None \<Rightarrow> []
         | Some t \<Rightarrow> [\<lparr>timer_id = t, callback = DingOff, delay = 15000\<rparr>]) \<and>
      (lock_state s = UNLOCKED) = (lock_unlockTimeout s \<noteq> None) \<and>
      (ding_state s = ON) = (ding_timeout s \<noteq> None) \<and>
      list_all (\<lambda>x. timer_id x < next_timer s) (timers s) \<and>
      distinct (map timer_id (timers s)))"

text \<open>
  Clearing the timeout an entity's handle names and arming a new one, as a list
  operation (for the proofs about \<^verbatim>\<open>setDoorUnlocked\<close> and \<^verbatim>\<open>processDing\<close>).
\<close>

definition rearmed :: "nat option \<Rightarrow> timer \<Rightarrow> timer list \<Rightarrow> timer list" where
  "rearmed h new ts =
     (case h of None \<Rightarrow> ts | Some t \<Rightarrow> filter (\<lambda>x. timer_id x \<noteq> t) ts) @ [new]"

text \<open>A wrapper after an unlock, a ding and a second unlock.\<close>

definition unlocked_twice :: intercom where
  "unlocked_twice =
     intercom_run (\<lambda>a. []) [OnUnlocked, OnDing, OnUnlocked] (intercom_new None False None)"

section \<open>The republish cycle (src/lib/state.js, class RingMqtt)\<close>

text \<open>
  A vendor location with the two flags \<^verbatim>\<open>processLocation\<close> adds to it and the current
  value of its \<^verbatim>\<open>onConnected\<close> subject.
\<close>

record location =
  locationId :: string
  hasHubs :: bool
  isSubscribed :: bool
  isConnected :: bool
  onConnected_value :: bool

text \<open>
  A suspended call: \<^verbatim>\<open>publishDevices(location)\<close> waiting in \<^verbatim>\<open>await utils.sleep(30)\<close>,
  together with the locations the \<^verbatim>\<open>for\<close> loop of the \<^verbatim>\<open>publishLocations\<close> that awaits
  it has still to visit (none when the websocket subscription started it);
  \<^verbatim>\<open>handleHomeAssistantRestart\<close> waiting in \<^verbatim>\<open>await utils.sleep(15)\<close>; the websocket
  subscriber waiting in \<^verbatim>\<open>await utils.sleep(30)\<close> after a disconnect.
\<close>

datatype rtask =
    PublishDevicesSleep string "string list"
  | HomeAssistantSleep
  | DisconnectSleep string

text \<open>
  The controller: the counter, the value of \<^verbatim>\<open>mqttConnected$\<close>, the locations, the
  \<^verbatim>\<open>locationId\<close> of every wrapper of \<^verbatim>\<open>devices$\<close>, and the suspended calls. \<open>cycles\<close>
  records each pass through the body of the loop of \<^verbatim>\<open>publishDevices\<close>: the location and
  the number of wrappers whose \<^verbatim>\<open>publish\<close> was called (a trace; the source has no such
  field). Discovery (\<^verbatim>\<open>initRingData\<close>) is not part of the model: a controller starts
  with the locations and devices it found.
\<close>

record ringmqtt =
  republishCount :: int
  mqttConnected :: bool
  locations :: "location list"
  deviceLocations :: "string list"
  rtasks :: "rtask list"
  cycles :: "(string \<times> nat) list"

definition ringmqtt_new :: "location list \<Rightarrow> string list \<Rightarrow> ringmqtt" where
  "ringmqtt_new locs devs =
     \<lparr> republishCount = 6, mqttConnected = False, locations = locs, deviceLocations = devs,
       rtasks = [], cycles = [] \<rparr>"

definition updateLocation :: "string \<Rightarrow> (location \<Rightarrow> location) \<Rightarrow> ringmqtt \<Rightarrow> ringmqtt" where
  "updateLocation l f s =
     s\<lparr>locations := map (\<lambda>x. if locationId x = l then f x else x) (locations s)\<rparr>"

text \<open>
  The body of the loop of \<^verbatim>\<open>publishDevices\<close>, up to the sleep: every wrapper of the
  location publishes; an exception is caught and logged.
\<close>

definition publishCycle :: "string \<Rightarrow> ringmqtt \<Rightarrow> ringmqtt" where
  "publishCycle l s =
     s\<lparr>cycles := cycles s @ [(l, length (filter (\<lambda>d. d = l) (deviceLocations s)))]\<rparr>"

text \<open>
  \<^verbatim>\<open>publishDevices(location)\<close> called with nothing waiting for it: it tests the loop
  condition, and either runs the body and suspends in the sleep, or returns.
\<close>

definition publishDevices :: "string \<Rightarrow> ringmqtt \<Rightarrow> ringmqtt" where
  "publishDevices l s =
     (if 0 < republishCount s \<and> mqttConnected s
      then (publishCycle l s)\<lparr>rtasks := rtasks s @ [PublishDevicesSleep l []]\<rparr>
      else s)"

text \<open>The function \<^verbatim>\<open>subscribeToLocationWebsocket\<close> subscribes to \<^verbatim>\<open>onConnected\<close>.\<close>

definition onConnected_subscriber :: "string \<Rightarrow> bool \<Rightarrow> ringmqtt \<Rightarrow> ringmqtt" where
  "onConnected_subscriber l connected s =
     (case find (\<lambda>x. locationId x = l) (locations s) of
        None \<Rightarrow> s
      | Some loc \<Rightarrow>
          if connected \<and> \<not> isConnected loc
          then publishDevices l (updateLocation l (\<lambda>x. x\<lparr>isConnected := True\<rparr>) s)
          else if \<not> connected
          then s\<lparr>rtasks := rtasks s @ [DisconnectSleep l]\<rparr>
          else s)"

text \<open>
  \<^verbatim>\<open>onConnected\<close> is a subject that holds a current value (the source reads its
  \<^verbatim>\<open>_value\<close>), so the subscriber is called with that value when it subscribes.
\<close>

definition subscribeToLocationWebsocket :: "string \<Rightarrow> ringmqtt \<Rightarrow> ringmqtt" where
  "subscribeToLocationWebsocket l s =
     (let s1 = updateLocation l (\<lambda>x. x\<lparr>isSubscribed := True\<rparr>) s in
      case find (\<lambda>x. locationId x = l) (locations s1) of
        None \<Rightarrow> s1
      | Some loc \<Rightarrow> onConnected_subscriber l (onConnected_value loc) s1)"

text \<open>
  \<^verbatim>\<open>publishLocations\<close> from some position of its \<^verbatim>\<open>for\<close> loop on: the locations still
  to visit are given by their identifiers. It runs until it has to wait for a
  \<^verbatim>\<open>publishDevices\<close> that sleeps, or to the end of the list.
\<close>

fun publishLocationsFrom :: "string list \<Rightarrow> ringmqtt \<Rightarrow> ringmqtt" where
  "publishLocationsFrom [] s = s"
| "publishLocationsFrom (l # ls) s =
     (case find (\<lambda>x. locationId x = l) (locations s) of
        None \<Rightarrow> publishLocationsFrom ls s
      | Some loc \<Rightarrow>
          if l \<in> set (deviceLocations s) then
            (if hasHubs loc \<and> \<not> isSubscribed loc
             then publishLocationsFrom ls (subscribeToLocationWebsocket l s)
             else if 0 < republishCount s \<and> mqttConnected s
             then (publishCycle l s)\<lparr>rtasks := rtasks s @ [PublishDevicesSleep l ls]\<rparr>
             else publishLocationsFrom ls s)
          else publishLocationsFrom ls s)"

definition publishLocations :: "ringmqtt \<Rightarrow> ringmqtt" where
  "publishLocations s = publishLocationsFrom (map locationId (locations s)) s"

text \<open>\<^verbatim>\<open>handleHomeAssistantRestart\<close>, up to its sleep.\<close>

definition handleHomeAssistantRestart :: "ringmqtt \<Rightarrow> ringmqtt" where
  "handleHomeAssistantRestart s =
     (if 0 < republishCount s
      then s\<lparr>republishCount := 6\<rparr>
      else s\<lparr>rtasks := rtasks s @ [HomeAssistantSleep]\<rparr>)"

text \<open>A suspended call continues after its sleep.\<close>

fun resume :: "rtask \<Rightarrow> ringmqtt \<Rightarrow> ringmqtt" where
  "resume (PublishDevicesSleep l ls) s =
     (let s1 = s\<lparr>republishCount := republishCount s - 1\<rparr> in
      if 0 < republishCount s1 \<and> mqttConnected s1
      then (publishCycle l s1)\<lparr>rtasks := rtasks s1 @ [PublishDevicesSleep l ls]\<rparr>
      else publishLocationsFrom ls s1)"
| "resume HomeAssistantSleep s = publishLocations (s\<lparr>republishCount := 6\<rparr>)"
| "resume (DisconnectSleep l) s =
     (case find (\<lambda>x. locationId x = l) (locations s) of
        None \<Rightarrow> s
      | Some loc \<Rightarrow>
          if \<not> onConnected_value loc
          then updateLocation l (\<lambda>x. x\<lparr>isConnected := False\<rparr>) s
          else s)"

text \<open>
  The events of the controller: the MQTT client reports its state, a message arrives on
  the Home Assistant status topic, the vendor reports the websocket of a location
  connected or not, the sleep of the \<open>i\<close>th suspended call ends.
\<close>

datatype revent =
    MqttState string
  | HaStatus string
  | WsConnected string bool
  | Wake nat

definition ringmqtt_step :: "revent \<Rightarrow> ringmqtt \<Rightarrow> ringmqtt" where
  "ringmqtt_step e s =
     (case e of
        MqttState st \<Rightarrow>
          (let connected = (st = ''connected'');
               s1 = s\<lparr>mqttConnected := connected\<rparr>
           in if connected \<and> \<not> mqttConnected s then publishLocations s1 else s1)
      | HaStatus message \<Rightarrow>
          if message = ''online'' then handleHomeAssistantRestart s else s
      | WsConnected l c \<Rightarrow>
          (let s1 = updateLocation l (\<lambda>x. x\<lparr>onConnected_value := c\<rparr>) s in
           case find (\<lambda>x. locationId x = l) (locations s1) of
             None \<Rightarrow> s1
           | Some loc \<Rightarrow> if isSubscribed loc then onConnected_subscriber l c s1 else s1)
      | Wake i \<Rightarrow>
          if i < length (rtasks s)
          then resume (rtasks s ! i)
                 (s\<lparr>rtasks := take i (rtasks s) @ drop (Suc i) (rtasks s)\<rparr>)
          else s)"

fun ringmqtt_run :: "revent list \<Rightarrow> ringmqtt \<Rightarrow> ringmqtt" where
  "ringmqtt_run [] s = s"
| "ringmqtt_run (e # es) s = ringmqtt_run es (ringmqtt_step e s)"

text \<open>The calls of \<^verbatim>\<open>publishDevices\<close> that are under way.\<close>

fun is_loop :: "rtask \<Rightarrow> bool" where
  "is_loop (PublishDevicesSleep l ls) = True"
| "is_loop t = False"

definition loops :: "ringmqtt \<Rightarrow> rtask list" where
  "loops s = filter is_loop (rtasks s)"

text \<open>A location without hubs that has one device, and its controller.\<close>

definition home :: location where
  "home = \<lparr> locationId = ''home'', hasHubs = False, isSubscribed = False,
            isConnected = False, onConnected_value = False \<rparr>"

definition home_controller :: ringmqtt where
  "home_controller = ringmqtt_new [home] [''home'']"

section \<open>MQTT topics (src/devices/contact-sensor.js, src/devices/beam.js)\<close>

text \<open>
  What the \<^verbatim>\<open>init\<close> methods read of \<^verbatim>\<open>this\<close>: the fields the base class (not among the
  sources) has set. \<open>component\<close> is \<open>None\<close> when the base class left it
  \<^verbatim>\<open>undefined\<close>.
\<close>

record alarm_device =
  alarmTopic :: string
  deviceId :: string
  dev_locationId :: string
  device_deviceType :: string
  data_deviceType :: string
  subCategoryId :: "int option"
  data_groupId :: "string option"
  component :: "string option"

text \<open>The topic scheme in the words of the spec.\<close>

definition spec_configTopic :: "string \<Rightarrow> string \<Rightarrow> string \<Rightarrow> string" where
  "spec_configTopic cmpt loc dev =
     ''homeassistant/'' @ cmpt @ ''/'' @ loc @ ''/'' @ dev @ ''/config''"

definition spec_stateTopic :: "string \<Rightarrow> string \<Rightarrow> string \<Rightarrow> string \<Rightarrow> string" where
  "spec_stateTopic root cmpt dev entity =
     root @ ''/'' @ cmpt @ ''/'' @ dev @ ''/'' @ entity @ ''_state''"

definition spec_attributesTopic :: "string \<Rightarrow> string \<Rightarrow> string \<Rightarrow> string" where
  "spec_attributesTopic root cmpt dev = root @ ''/'' @ cmpt @ ''/'' @ dev @ ''/attributes''"

definition spec_availabilityTopic :: "string \<Rightarrow> string \<Rightarrow> string \<Rightarrow> string" where
  "spec_availabilityTopic root cmpt dev = root @ ''/'' @ cmpt @ ''/'' @ dev @ ''/status''"

text \<open>\<^verbatim>\<open>ContactSensor.init\<close>, up to the topics.\<close>

record contact_sensor =
  cs_component :: string
  className :: string
  sensorType :: string
  mdl :: string
  deviceTopic :: string
  stateTopic :: string
  attributesTopic :: string
  availabilityTopic :: string
  configTopic :: string

definition ContactSensor_init :: "alarm_device \<Rightarrow> contact_sensor" where
  "ContactSensor_init this =
     (let cmpt = ''binary_sensor'';
          zone = (device_deviceType this = ''sensor.zone'');
          cn = (if zone then ''safety''
                else if subCategoryId this = Some 2 then ''window'' else ''door'');
          st = (if zone then ''zone'' else ''contact'');
          dt = alarmTopic this @ ''/'' @ cmpt @ ''/'' @ deviceId this
      in \<lparr> cs_component = cmpt,
           className = cn,
           sensorType = st,
           mdl = (if zone then ''Retrofit Zone'' else ''Contact Sensor''),
           deviceTopic = dt,
           stateTopic = dt @ ''/'' @ st @ ''_state'',
           attributesTopic = dt @ ''/attributes'',
           availabilityTopic = dt @ ''/status'',
           configTopic = ''homeassistant/'' @ cmpt @ ''/'' @ dev_locationId this @ ''/'' @
                         deviceId this @ ''/config'' \<rparr>)"

text \<open>
  \<^verbatim>\<open>Beam.init\<close>, up to the topics. The method names two identifiers that nothing
  declares, \<^verbatim>\<open>availabilityTopic\<close> (assigned) and \<^verbatim>\<open>deviceType\<close> (read), so what it
  does depends on the global object: \<open>globals\<close> maps the names of the global variables
  that exist to their values. A class body is strict code: assigning to an identifier
  that does not exist throws, as reading one does. A topic the method does not assign
  stays \<^verbatim>\<open>undefined\<close> (\<open>None\<close>).
\<close>

type_synonym globals = "string \<Rightarrow> string option"

record beam =
  isLightGroup :: bool
  groupId :: "string option"
  deviceTopic_motion :: "string option"
  stateTopic_motion :: "string option"
  attributesTopic_motion :: "string option"
  configTopic_motion :: "string option"
  deviceTopic_light :: "string option"
  stateTopic_light :: "string option"
  commandTopic_light :: "string option"
  attributesTopic_light :: "string option"
  configTopic_light :: "string option"
  stateTopic_brightness :: "string option"
  commandTopic_brightness :: "string option"
  beam_configTopic :: "string option"
  beam_availabilityTopic :: "string option"

definition js_string :: "string option \<Rightarrow> string" where
  "js_string v = (case v of None \<Rightarrow> ''undefined'' | Some str \<Rightarrow> str)"

definition Beam_init :: "globals \<Rightarrow> alarm_device \<Rightarrow> js_error + (globals \<times> beam)" where
  "Beam_init g this =
     (if g ''availabilityTopic'' = None then Inl ReferenceError
      else
        (let g1 = g(''availabilityTopic'' \<mapsto>
                      alarmTopic this @ ''/beam/'' @ deviceId this @ ''/status'');
             group = (data_deviceType this = ''group.light-group.beams'')
         in case g1 ''deviceType'' of
              None \<Rightarrow> Inl ReferenceError
            | Some deviceType_global \<Rightarrow>
                (let motion = (deviceType_global \<noteq> ''switch.transformer.beams'');
                     light = (deviceType_global \<noteq> ''motion-sensor.beams'');
                     bright = (deviceType_global = ''switch.multilevel.beams'');
                     dtm = alarmTopic this @ ''/binary_sensor/'' @ deviceId this;
                     dtl = alarmTopic this @ ''/light/'' @ deviceId this;
                     dtl_read = js_string (if light then Some dtl else None)
                 in Inr (g1,
                      \<lparr> isLightGroup = group,
                        groupId = (if group then data_groupId this else None),
                        deviceTopic_motion = (if motion then Some dtm else None),
                        stateTopic_motion = (if motion then Some (dtm @ ''/motion_state'') else None),
                        attributesTopic_motion =
                          (if motion then Some (dtm @ ''/attributes'') else None),
                        configTopic_motion =
                          (if motion
                           then Some (''homeassistant/binary_sensor/'' @ dev_locationId this @
                                      ''/'' @ deviceId this @ ''/config'')
                           else None),
                        deviceTopic_light = (if light then Some dtl else None),
                        stateTopic_light = (if light then Some (dtl @ ''switch_state'') else None),
                        commandTopic_light =
                          (if light then Some (dtl @ ''switch_command'') else None),
                        attributesTopic_light =
                          (if light then Some (dtl @ ''/attributes'') else None),
                        configTopic_light =
                          (if light
                           then Some (''homeassistant/light/'' @ dev_locationId this @
                                      ''/'' @ deviceId this @ ''/config'')
                           else None),
                        stateTopic_brightness =
                          (if bright then Some (dtl_read @ ''brightness_state'') else None),
                        commandTopic_brightness =
                          (if bright then Some (dtl_read @ ''brightness_command'') else None),
                        beam_configTopic =
                          Some (''homeassistant/'' @ js_string (component this) @ ''/'' @
                                dev_locationId this @ ''/'' @ deviceId this @ ''/config''),
                        beam_availabilityTopic = None \<rparr>))))"

text \<open>
  A dimmable Beams light, and a global object on which both identifiers exist (the one
  \<^verbatim>\<open>Beam.init\<close> reads holding the type of the device).
\<close>

definition beam_light :: alarm_device where
  "beam_light =
     \<lparr> alarmTopic = ''ring/loc1/alarm'', deviceId = ''dev1'', dev_locationId = ''loc1'',
       device_deviceType = ''switch.multilevel.beams'',
       data_deviceType = ''switch.multilevel.beams'',
       subCategoryId = None, data_groupId = None, component = None \<rparr>"

definition beam_globals :: globals where
  "beam_globals =
     [''availabilityTopic'' \<mapsto> [], ''deviceType'' \<mapsto> ''switch.multilevel.beams'']"

definition door_sensor :: alarm_device where
  "door_sensor =
     \<lparr> alarmTopic = ''ring/loc1/alarm'', deviceId = ''dev2'', dev_locationId = ''loc1'',
       device_deviceType = ''sensor.contact'', data_deviceType = ''sensor.contact'',
       subCategoryId = Some 1, data_groupId = None, component = None \<rparr>"

section \<open>The media server supervisor (src/lib/mediamtx.js)\<close>

text \<open>\<^verbatim>\<open>this.started\<close> holds \<^verbatim>\<open>false\<close>, \<^verbatim>\<open>true\<close> or the string \<^verbatim>\<open>'shutdown'\<close>.\<close>

datatype started_flag = Started_false | Started_true | Started_shutdown

datatype signal = SIGTERM | SIGKILL

text \<open>
  The \<^verbatim>\<open>close\<close> handler of process \<open>p\<close>, suspended in its first sleep (one second) or
  in its second (five seconds, before \<^verbatim>\<open>this.init()\<close>).
\<close>

datatype mtx_task = CloseSleep1 nat | RestartSleep5 nat

text \<open>
  The supervisor and its processes: processes are numbered in the order \<^verbatim>\<open>spawn\<close>
  creates them, \<open>spawned\<close> is their number, \<open>mediamtxProcess\<close> the current one
  (\<^verbatim>\<open>false\<close> is \<open>None\<close>), \<open>kills\<close> the signals sent, \<open>configWritten\<close> the number of
  times the configuration file was written.
\<close>

record mediamtx =
  started :: started_flag
  mediamtxProcess :: "nat option"
  spawned :: nat
  kills :: "(nat \<times> signal) list"
  configWritten :: nat
  mtx_tasks :: "mtx_task list"

definition mediamtx_new :: mediamtx where
  "mediamtx_new =
     \<lparr> started = Started_false, mediamtxProcess = None, spawned = 0, kills = [],
       configWritten = 0, mtx_tasks = [] \<rparr>"

text \<open>\<^verbatim>\<open>init(cameras)\<close>; \<open>with_cameras\<close> tells whether the argument was given.\<close>

definition mediamtx_init :: "bool \<Rightarrow> mediamtx \<Rightarrow> mediamtx" where
  "mediamtx_init with_cameras s =
     s\<lparr> started := Started_true,
        configWritten := (if with_cameras then Suc (configWritten s) else configWritten s),
        mediamtxProcess := Some (spawned s),
        spawned := Suc (spawned s) \<rparr>"

definition mediamtx_shutdown :: "mediamtx \<Rightarrow> mediamtx" where
  "mediamtx_shutdown s =
     (let s1 = s\<lparr>started := Started_shutdown\<rparr> in
      case mediamtxProcess s1 of
        None \<Rightarrow> s1
      | Some p \<Rightarrow> s1\<lparr>kills := kills s1 @ [(p, SIGTERM)], mediamtxProcess := None\<rparr>)"

text \<open>
  The \<^verbatim>\<open>close\<close> handler after each of its sleeps. With \<^verbatim>\<open>this.mediamtxProcess\<close> being
  \<^verbatim>\<open>false\<close> the call of \<^verbatim>\<open>kill\<close> throws and the handler ends there.
\<close>

fun mediamtx_resume :: "mtx_task \<Rightarrow> mediamtx \<Rightarrow> mediamtx" where
  "mediamtx_resume (CloseSleep1 p) s =
     (if started s \<noteq> Started_shutdown
      then (case mediamtxProcess s of
              None \<Rightarrow> s
            | Some q \<Rightarrow> s\<lparr>kills := kills s @ [(q, SIGKILL)],
                          mtx_tasks := mtx_tasks s @ [RestartSleep5 p]\<rparr>)
      else s)"
| "mediamtx_resume (RestartSleep5 p) s = mediamtx_init False s"

text \<open>
  The events of the supervisor: a call of \<^verbatim>\<open>init\<close> with the cameras, process \<open>p\<close>
  emitting \<^verbatim>\<open>close\<close>, the sleep of the \<open>i\<close>th suspended handler ending, a call of
  \<^verbatim>\<open>shutdown\<close>.
\<close>

datatype mtx_event = Init | Close nat | HandlerWakes nat | Shutdown

definition mediamtx_step :: "mtx_event \<Rightarrow> mediamtx \<Rightarrow> mediamtx" where
  "mediamtx_step e s =
     (case e of
        Init \<Rightarrow> mediamtx_init True s
      | Close p \<Rightarrow>
          if p < spawned s then s\<lparr>mtx_tasks := mtx_tasks s @ [CloseSleep1 p]\<rparr> else s
      | HandlerWakes i \<Rightarrow>
          if i < length (mtx_tasks s)
          then mediamtx_resume (mtx_tasks s ! i)
                 (s\<lparr>mtx_tasks := take i (mtx_tasks s) @ drop (Suc i) (mtx_tasks s)\<rparr>)
          else s
      | Shutdown \<Rightarrow> mediamtx_shutdown s)"

fun mediamtx_run :: "mtx_event list \<Rightarrow> mediamtx \<Rightarrow> mediamtx" where
  "mediamtx_run [] s = s"
| "mediamtx_run (e # es) s = mediamtx_run es (mediamtx_step e s)"

text \<open>
  The server crashes, and \<^verbatim>\<open>shutdown\<close> is called while the handler of the crash waits
  to restart it.
\<close>

definition crash_then_shutdown :: "mtx_event list" where
  "crash_then_shutdown = [Init, Close 0, HandlerWakes 0, Shutdown]"

definition after_the_shutdown :: "mtx_event list" where
  "after_the_shutdown = [HandlerWakes 0, Close 1, HandlerWakes 0, HandlerWakes 0]"

fun is_restart :: "mtx_task \<Rightarrow> bool" where
  "is_restart (RestartSleep5 p) = True"
| "is_restart t = False"

text \<open>
  The controller of \<open>home\<close> after the MQTT client has connected (the first loop is
  running), and after the six sleeps of that loop have ended.
\<close>

definition home_publishing :: ringmqtt where
  "home_publishing = ringmqtt_run [MqttState ''connected''] home_controller"

definition home_idle :: ringmqtt where
  "home_idle = ringmqtt_run (replicate 6 (Wake 0)) home_publishing"

text \<open>
  A supervisor that has been shut down and has no restart waiting.
\<close>

definition settled :: "mediamtx \<Rightarrow> bool" where
  "settled s = (started s = Started_shutdown \<and> \<not> list_ex is_restart (mtx_tasks s))"

section \<open>Properties of the device mapper\<close>

subsection \<open>Lookup in the table of creators\<close>

lemma map_of_rev_append:
  "map_of (rev (xs @ ys)) k =
     (case map_of (rev ys) k of Some v \<Rightarrow> Some v | None \<Rightarrow> map_of (rev xs) k)"
  by (simp add: map_add_def split: option.splits)

lemma map_of_rev_const:
  assumes "k \<in> fst ` set ys" and "snd ` set ys \<subseteq> {v}"
  shows "map_of (rev ys) k = Some v"
proof -
  from assms(1) have "k \<in> fst ` set (rev ys)" by simp
  then obtain w where w: "map_of (rev ys) k = Some w"
    by (metis domD dom_map_of_conv_image_fst)
  then have "(k, w) \<in> set ys" by (auto dest: map_of_SomeD)
  with assms(2) have "w = v" by force
  with w show ?thesis by simp
qed

text \<open>The last eight properties of the table are the ignored device types.\<close>

lemma creators_ignored_suffix:
  "drop 30 (creators T dev info allDevices) =
   [ (T RDT_BeamsSwitch, Fn (Inr Ignore)),
     (''access-code'', Fn (Inr Ignore)),
     (''access-code.vault'', Fn (Inr Ignore)),
     (''adapter.sidewalk'', Fn (Inr Ignore)),
     (''adapter.shadow'', Fn (Inr Ignore)),
     (''adapter.zigbee'', Fn (Inr Ignore)),
     (''adapter.zwave'', Fn (Inr Ignore)),
     (''thermostat-operating-status'', Fn (Inr Ignore)) ]"
  by (simp add: creators_def)

lemma js_get_ignored:
  assumes "deviceType dev \<in> {T RDT_BeamsSwitch, ''access-code'', ''access-code.vault'',
             ''adapter.sidewalk'', ''adapter.shadow'', ''adapter.zigbee'', ''adapter.zwave'',
             ''thermostat-operating-status''}"
  shows "js_get (creators T dev info allDevices) (deviceType dev) = Fn (Inr Ignore)"
proof -
  let ?cs = "creators T dev info allDevices"
  have k: "deviceType dev \<in> fst ` set (drop 30 ?cs)"
    using assms unfolding creators_ignored_suffix by auto
  have v: "snd ` set (drop 30 ?cs) \<subseteq> {Fn (Inr Ignore)}"
    unfolding creators_ignored_suffix by simp
  have "map_of (rev (take 30 ?cs @ drop 30 ?cs)) (deviceType dev) = Some (Fn (Inr Ignore))"
    unfolding map_of_rev_append using map_of_rev_const [OF k v] by simp
  then have "map_of (rev ?cs) (deviceType dev) = Some (Fn (Inr Ignore))"
    by simp
  then show ?thesis by (simp add: js_get_def)
qed

text \<open>
  A device type that is neither a key of the table nor the name of a member of
  \<^verbatim>\<open>Object.prototype\<close> falls through to \<^verbatim>\<open>creators.lock\<close>: a Lock wrapper for the
  prefix \<^verbatim>\<open>lock.\<close>, \<^verbatim>\<open>'not-supported'\<close> otherwise. (The type \<^verbatim>\<open>lock\<close> itself is a
  key. The enum must not name \<^verbatim>\<open>lock\<close> as the spare switch: that property would
  replace the accessor.)
\<close>

lemma mapByDeviceType_unlisted:
  assumes "map_of (creators T dev info allDevices) (deviceType dev) = None"
      and "map_of Object_prototype (deviceType dev) = None"
      and "T RDT_BeamsSwitch \<noteq> ''lock''"
  shows "mapByDeviceType T dev info allDevices =
           (if prefix ''lock.'' (deviceType dev) then Inr (New Lock info) else Inr NotSupported)"
proof -
  let ?cs = "creators T dev info allDevices"
  have own: "map_of (rev ?cs) (deviceType dev) = None"
    using assms(1) by (simp add: map_of_eq_None_iff)
  have notkey: "deviceType dev \<notin> fst ` set ?cs"
    using assms(1) by (simp add: map_of_eq_None_iff)
  have "''lock'' \<in> fst ` set ?cs"
    by (simp add: creators_def)
  with notkey have nl: "deviceType dev \<noteq> ''lock''"
    by metis
  have lk: "js_get ?cs ''lock'' =
         (if prefix ''lock.'' (deviceType dev) then Fn (Inr (New Lock info)) else Undef)"
    using assms(3) nl by (simp add: js_get_def creators_def)
  have bt: "js_get ?cs (deviceType dev) = Undef"
    using own assms(2) by (simp add: js_get_def)
  show ?thesis
    unfolding mapByDeviceType_def Let_def bt lk by simp
qed

subsection \<open>Wrappers keep the links of their device info\<close>

lemma creators_links_kept:
  "list_all (\<lambda>(k, v). links_kept info v) (creators T dev info allDevices)"
  by (simp add: creators_def createSecurityDevice_def handleTemperatureSensor_def
        same_links_def split: option.splits)

lemma creators_values:
  assumes "(k, Fn (Inr w)) \<in> set (creators T dev info allDevices)"
      and "wrapper_info w = Some i"
  shows "same_links i info"
proof -
  from creators_links_kept [of info T dev allDevices] assms(1)
  have "links_kept info (Fn (Inr w))"
    unfolding list_all_iff by blast
  with assms(2) show ?thesis by simp
qed

lemma Object_prototype_values:
  assumes "(k, Fn (Inr w)) \<in> set Object_prototype"
  shows "wrapper_info w = None"
  using assms by (auto simp add: Object_prototype_def)

lemma js_get_cases:
  "js_get cs k = Undef \<or> (k, js_get cs k) \<in> set cs \<or> (k, js_get cs k) \<in> set Object_prototype"
  by (auto simp add: js_get_def split: option.splits dest: map_of_SomeD)

lemma js_get_info:
  assumes "js_get (creators T dev info allDevices) k = Fn (Inr w)"
      and "wrapper_info w = Some i"
  shows "same_links i info"
  using js_get_cases [of "creators T dev info allDevices" k] assms
    creators_values [of k w T dev info allDevices i] Object_prototype_values [of k w]
  by auto

lemma mapByDeviceType_info:
  assumes "mapByDeviceType T dev info allDevices = Inr w"
      and "wrapper_info w = Some i"
  shows "same_links i info"
proof -
  let ?cs = "creators T dev info allDevices"
  obtain k where k: "js_get ?cs k = Fn (Inr w)"
    using assms
    by (cases "js_get ?cs (deviceType dev)"; cases "js_get ?cs ''lock''")
       (auto simp add: mapByDeviceType_def Let_def)
  from js_get_info [OF k assms(2)] show ?thesis .
qed

lemma mapDevice_info:
  assumes "mapDevice T dev allDevices evs = Inr w"
      and "wrapper_info w = Some i"
  shows "same_links i (buildDeviceInfo dev allDevices)"
  using assms mapByDeviceType_info [of T dev "buildDeviceInfo dev allDevices" allDevices w i]
  by (auto simp add: mapDevice_def Let_def same_links_def split: if_splits)

lemma find_distinct:
  assumes "distinct (map f xs)" and "x \<in> set xs"
  shows "find (\<lambda>y. f y = f x) xs = Some x"
  using assms
proof (induction xs)
  case Nil
  then show ?case by simp
next
  case (Cons a xs)
  then show ?case by (auto simp add: image_iff)
qed

subsection \<open>The claims about mapping\<close>

text \<open>
  Whatever the enum's values: a device info whose parent reference names no device of
  the list makes \<^verbatim>\<open>handleTemperatureSensor\<close> throw.
\<close>

lemma handleTemperatureSensor_orphan:
  assumes "parentZid (data dev) = Some z"
      and "find (\<lambda>d. dev_id d = z) allDevices = None"
  shows "handleTemperatureSensor T (buildDeviceInfo dev allDevices) = Inl TypeError"
  using assms by (simp add: handleTemperatureSensor_def buildDeviceInfo_def)

text \<open>
  Claim C1 says that mapping never throws, also for a temperature sensor whose
  \<^verbatim>\<open>parentZid\<close> names no device of the list. The code throws there: \<^verbatim>\<open>buildDeviceInfo\<close>
  stores the \<^verbatim>\<open>undefined\<close> that \<^verbatim>\<open>find\<close> returns under \<^verbatim>\<open>parentDevice\<close>, the guard
  \<^verbatim>\<open>hasOwnProperty('parentDevice')\<close> of \<^verbatim>\<open>handleTemperatureSensor\<close> holds, and the read
  of \<^verbatim>\<open>.deviceType\<close> raises a TypeError.
\<close>

theorem C1_orphan_temperature_sensor_throws:
  "find (\<lambda>d. dev_id d = ''gone'') [orphan_sensor] = None \<and>
   parentZid (data orphan_sensor) = Some ''gone'' \<and>
   deviceType orphan_sensor = ringDeviceType RDT_TemperatureSensor \<and>
   mapDevice ringDeviceType orphan_sensor [orphan_sensor] [] = Inl TypeError"
  by (simp add: orphan_sensor_def mapDevice_def mapByDeviceType_def creators_def js_get_def
      mkDevice_def buildDeviceInfo_def hasChildDevices_def handleTemperatureSensor_def Let_def)

text \<open>
  Claim C6 says that a device type that is no key of the table maps to a Lock wrapper
  (prefix \<^verbatim>\<open>lock.\<close>) or to Unsupported. For the devices the table is read for (those
  that are no camera, chime or intercom) this holds of every type that is not the name
  of a member of \<^verbatim>\<open>Object.prototype\<close> (lemma \<open>mapByDeviceType_unlisted\<close>). The type
  \<^verbatim>\<open>constructor\<close> is no key of the table and has no such prefix, but the lookup finds
  the member the table inherits from \<^verbatim>\<open>Object.prototype\<close> and calls it: the mapping
  returns a new empty object, neither a Lock wrapper nor Unsupported.
\<close>

theorem C6_inherited_member_is_called:
  "cls constructor_device = RingDevice \<and>
   map_of (creators ringDeviceType constructor_device
             (buildDeviceInfo constructor_device [constructor_device]) [constructor_device])
          (deviceType constructor_device) = None \<and>
   \<not> prefix ''lock.'' (deviceType constructor_device) \<and>
   deviceType constructor_device \<noteq> ''lock'' \<and>
   mapDevice ringDeviceType constructor_device [constructor_device] [] =
     Inr (Other EmptyObject)"
  by (simp add: constructor_device_def mapDevice_def mapByDeviceType_def creators_def
      js_get_def mkDevice_def Object_prototype_def Let_def)

text \<open>
  Claim C7, as stated, promises a wrapper for the child. A temperature sensor whose
  parent is a thermostat is mapped to \<^verbatim>\<open>'ignore'\<close>: no wrapper, no \<^verbatim>\<open>parentDevice\<close>.
\<close>

theorem C7_child_of_thermostat_has_no_wrapper:
  "parentZid (data thermostat_sensor) = Some (dev_id thermostat_dev) \<and>
   mapDevice ringDeviceType thermostat_sensor [thermostat_dev, thermostat_sensor] [] =
     Inr Ignore \<and>
   wrapper_info Ignore = None"
  by (simp add: thermostat_sensor_def thermostat_dev_def mapDevice_def mapByDeviceType_def
      creators_def js_get_def mkDevice_def buildDeviceInfo_def hasChildDevices_def
      handleTemperatureSensor_def Let_def)

text \<open>
  Claim C7, amended: let A and B be devices of one list whose identifiers are pairwise
  distinct, with \<^verbatim>\<open>B.data.parentZid\<close> equal to \<^verbatim>\<open>A.id\<close>. The device info built for B has
  \<^verbatim>\<open>parentDevice\<close> A; the device info built for A has as \<^verbatim>\<open>childDevices\<close> exactly the
  devices of the list whose \<^verbatim>\<open>parentZid\<close> is \<^verbatim>\<open>A.id\<close>, B among them; and whenever
  mapping B (or A) returns a wrapper, the wrapper carries that parent (that child list).
\<close>

theorem C7_parent_and_children_linked:
  assumes "A \<in> set allDevices" and "B \<in> set allDevices"
      and "distinct (map dev_id allDevices)"
      and "parentZid (data B) = Some (dev_id A)"
  shows "parentDevice (buildDeviceInfo B allDevices) = Some (Some A) \<and>
         childDevices (buildDeviceInfo A allDevices) =
           Some (filter (\<lambda>d. parentZid (data d) = Some (dev_id A)) allDevices) \<and>
         B \<in> set (filter (\<lambda>d. parentZid (data d) = Some (dev_id A)) allDevices) \<and>
         (\<forall>w i. mapDevice T B allDevices evs = Inr w \<longrightarrow> wrapper_info w = Some i \<longrightarrow>
                parentDevice i = Some (Some A)) \<and>
         (\<forall>w i. mapDevice T A allDevices evs = Inr w \<longrightarrow> wrapper_info w = Some i \<longrightarrow>
                childDevices i =
                  Some (filter (\<lambda>d. parentZid (data d) = Some (dev_id A)) allDevices))"
proof -
  have parent: "parentDevice (buildDeviceInfo B allDevices) = Some (Some A)"
    using assms(4) find_distinct [OF assms(3) assms(1)]
    by (simp add: buildDeviceInfo_def)
  have has: "hasChildDevices A allDevices"
    using assms(2) assms(4) by (auto simp add: hasChildDevices_def list_ex_iff)
  then have children: "childDevices (buildDeviceInfo A allDevices) =
      Some (filter (\<lambda>d. parentZid (data d) = Some (dev_id A)) allDevices)"
    by (simp add: buildDeviceInfo_def)
  have member: "B \<in> set (filter (\<lambda>d. parentZid (data d) = Some (dev_id A)) allDevices)"
    using assms(2) assms(4) by simp
  have wrapB: "parentDevice i = Some (Some A)"
    if "mapDevice T B allDevices evs = Inr w" and "wrapper_info w = Some i" for w i
    using mapDevice_info [OF that] parent by (simp add: same_links_def)
  have wrapA: "childDevices i =
      Some (filter (\<lambda>d. parentZid (data d) = Some (dev_id A)) allDevices)"
    if "mapDevice T A allDevices evs = Inr w" and "wrapper_info w = Some i" for w i
    using mapDevice_info [OF that] children by (simp add: same_links_def)
  from parent children member wrapB wrapA show ?thesis by blast
qed

text \<open>
  C7 at a base station and a contact sensor attached to it: both are mapped to
  wrappers, the sensor's wrapper holds the station as parent and the station's wrapper
  holds the sensor as its only child.
\<close>

theorem C7_parent_and_children_linked_witness:
  "station_dev \<in> set [station_dev, contact_dev] \<and>
   contact_dev \<in> set [station_dev, contact_dev] \<and>
   distinct (map dev_id [station_dev, contact_dev]) \<and>
   parentZid (data contact_dev) = Some (dev_id station_dev) \<and>
   parentDevice (buildDeviceInfo contact_dev [station_dev, contact_dev]) =
     Some (Some station_dev) \<and>
   (\<exists>i. mapDevice ringDeviceType contact_dev [station_dev, contact_dev] [] =
           Inr (New BinarySensor i) \<and> parentDevice i = Some (Some station_dev)) \<and>
   (\<exists>i. mapDevice ringDeviceType station_dev [station_dev, contact_dev] [] =
           Inr (New BaseStation i) \<and> childDevices i = Some [contact_dev])"
proof -
  have h1: "station_dev \<in> set [station_dev, contact_dev]" by simp
  have h2: "contact_dev \<in> set [station_dev, contact_dev]" by simp
  have h3: "distinct (map dev_id [station_dev, contact_dev])"
    by (simp add: station_dev_def contact_dev_def mkDevice_def)
  have h4: "parentZid (data contact_dev) = Some (dev_id station_dev)"
    by (simp add: station_dev_def contact_dev_def mkDevice_def)
  have mB: "mapDevice ringDeviceType contact_dev [station_dev, contact_dev] [] =
      Inr (New BinarySensor ((buildDeviceInfo contact_dev [station_dev, contact_dev])
             \<lparr>securityPanel := Some None\<rparr>))"
    by (simp add: station_dev_def contact_dev_def mapDevice_def mapByDeviceType_def
        creators_def js_get_def mkDevice_def createSecurityDevice_def Let_def)
  have mA: "mapDevice ringDeviceType station_dev [station_dev, contact_dev] [] =
      Inr (New BaseStation (buildDeviceInfo station_dev [station_dev, contact_dev]))"
    by (simp add: station_dev_def contact_dev_def mapDevice_def mapByDeviceType_def
        creators_def js_get_def mkDevice_def Let_def)
  have f: "filter (\<lambda>d. parentZid (data d) = Some (dev_id station_dev))
             [station_dev, contact_dev] = [contact_dev]"
    by (simp add: station_dev_def contact_dev_def mkDevice_def)
  from C7_parent_and_children_linked [OF h1 h2 h3 h4, of ringDeviceType "[]"]
  show ?thesis using h1 h2 h3 h4 mB mA f by simp
qed

text \<open>
  Claim C8: a device that is not a camera, chime or intercom instance (those are
  classified by class before the table is read) and whose type is in the ignore set is
  mapped to \<^verbatim>\<open>'ignore'\<close>, whatever the values of the vendor enum, the sibling devices and
  the events are: neither Unsupported nor a wrapper.
\<close>

theorem C8_ignore_set_maps_to_Ignore:
  assumes "cls dev = RingDevice"
      and "deviceType dev \<in> {T RDT_BeamsSwitch, ''access-code'', ''access-code.vault'',
             ''adapter.sidewalk'', ''adapter.shadow'', ''adapter.zigbee'', ''adapter.zwave'',
             ''thermostat-operating-status''}"
  shows "mapDevice T dev allDevices evs = Inr Ignore"
  using assms(1) js_get_ignored [where T=T and dev=dev, OF assms(2)]
  by (simp add: mapDevice_def mapByDeviceType_def Let_def)

text \<open>C8 at a spare Beams switch, the member of the ignore set the enum names.\<close>

theorem C8_ignore_set_maps_to_Ignore_witness:
  "cls spare_switch = RingDevice \<and>
   deviceType spare_switch = ringDeviceType RDT_BeamsSwitch \<and>
   mapDevice ringDeviceType spare_switch [station_dev, spare_switch] [] = Inr Ignore"
proof -
  have h1: "cls spare_switch = RingDevice"
    by (simp add: spare_switch_def mkDevice_def)
  have h2: "deviceType spare_switch \<in> {ringDeviceType RDT_BeamsSwitch, ''access-code'',
      ''access-code.vault'', ''adapter.sidewalk'', ''adapter.shadow'', ''adapter.zigbee'',
      ''adapter.zwave'', ''thermostat-operating-status''}"
    by (simp add: spare_switch_def mkDevice_def)
  have h3: "deviceType spare_switch = ringDeviceType RDT_BeamsSwitch"
    by (simp add: spare_switch_def mkDevice_def)
  from C8_ignore_set_maps_to_Ignore
    [where T=ringDeviceType and dev=spare_switch and allDevices="[station_dev, spare_switch]"
       and evs="[]", OF h1 h2]
  show ?thesis using h1 h3 by simp
qed

section \<open>Properties of device discovery\<close>






subsection \<open>One iteration\<close>

lemma find_wrapper_logs:
  assumes "find (\<lambda>d. wrapper_deviceId d = Some k) reg = Some e"
  shows "logDeviceDetails e = None"
proof -
  from assms have "wrapper_deviceId e = Some k"
    by (auto simp add: find_Some_iff)
  then show ?thesis by (cases e) simp_all
qed

lemma beforeAwait_existing:
  assumes "find (\<lambda>d. wrapper_deviceId d = Some (getDeviceId dev)) (registry st) = Some e"
  shows "beforeAwait T allDevices evs dev st = (Finished None, st)"
  using assms find_wrapper_logs [OF assms] by (simp add: beforeAwait_def Let_def)

lemma beforeAwait_missing:
  assumes "find (\<lambda>d. wrapper_deviceId d = Some (getDeviceId dev)) (registry st) = None"
  shows "beforeAwait T allDevices evs dev st =
           (Awaiting (mapDevice T dev allDevices evs), st\<lparr>mapCalls := mapCalls st @ [dev]\<rparr>)"
  using assms by (simp add: beforeAwait_def Let_def)

lemma processDevice_existing:
  assumes "find (\<lambda>d. wrapper_deviceId d = Some (getDeviceId dev)) (registry st) = Some e"
  shows "processDevice T allDevices evs dev st = (None, st)"
  by (simp add: processDevice_def beforeAwait_existing [OF assms])



subsection \<open>A call that nothing interleaves with\<close>



text \<open>
  The loop of such a call is the first segment, resumed at once in the state in which
  it suspended, and so on to the end of the loop.
\<close>

lemma processLoop_segments:
  "processLoop T allDevices evs ds st =
     (case loopUntilAwait T allDevices evs ds st of
        (Returned, st') \<Rightarrow> (None, st')
      | (Threw err, st') \<Rightarrow> (Some err, st')
      | (Suspended dev outcome rest, st') \<Rightarrow>
          (case afterAwait dev outcome st' of
             (Some err, st'') \<Rightarrow> (Some err, st'')
           | (None, st'') \<Rightarrow> processLoop T allDevices evs rest st''))"
proof (induction ds arbitrary: st)
  case Nil
  show ?case by simp
next
  case (Cons d ds)
  show ?case
  proof (cases "find (\<lambda>x. wrapper_deviceId x = Some (getDeviceId d)) (registry st)")
    case (Some e)
    show ?thesis
      using Cons.IH [of st]
      by (simp add: processDevice_existing [OF Some] beforeAwait_existing [OF Some])
  next
    case None
    show ?thesis
      by (simp add: processDevice_def beforeAwait_missing [OF None])
  qed
qed

text \<open>Every wrapper the mapper returns is appended to the registry, and logging it does not throw.\<close>

lemma wrappers_are_registered:
  assumes "is_wrapper m"
  shows "registers m \<and> logDeviceDetails m = None \<and> m \<noteq> NotSupported"
  using assms by (cases m) simp_all


subsection \<open>Calls in one process\<close>









subsection \<open>The claim about discovery\<close>




section \<open>Properties of the intercom wrapper\<close>


lemma mqttPublish_fields [simp]:
  "mqtt (mqttPublish ent p s) = mqtt s @ [(ent, p)]"
  "timers (mqttPublish ent p s) = timers s"
  "next_timer (mqttPublish ent p s) = next_timer s"
  "lock_state (mqttPublish ent p s) = lock_state s"
  "lock_publishedState (mqttPublish ent p s) = lock_publishedState s"
  "lock_unlockTimeout (mqttPublish ent p s) = lock_unlockTimeout s"
  "ding_state (mqttPublish ent p s) = ding_state s"
  "ding_publishedState (mqttPublish ent p s) = ding_publishedState s"
  "ding_timeout (mqttPublish ent p s) = ding_timeout s"
  "batteryLevel (mqttPublish ent p s) = batteryLevel s"
  "has_firemware_version (mqttPublish ent p s) = has_firemware_version s"
  "firmware_version (mqttPublish ent p s) = firmware_version s"
  by (simp_all add: mqttPublish_def)

lemma publishDingState_fields [simp]:
  "mqtt (publishDingState b s) =
     (if Some (ding_state s) \<noteq> ding_publishedState s \<or> b
      then mqtt s @ [(DingEntity, DingPayload (ding_state s))] else mqtt s)"
  "ding_publishedState (publishDingState b s) =
     (if Some (ding_state s) \<noteq> ding_publishedState s \<or> b
      then Some (ding_state s) else ding_publishedState s)"
  "timers (publishDingState b s) = timers s"
  "next_timer (publishDingState b s) = next_timer s"
  "lock_state (publishDingState b s) = lock_state s"
  "lock_publishedState (publishDingState b s) = lock_publishedState s"
  "lock_unlockTimeout (publishDingState b s) = lock_unlockTimeout s"
  "ding_state (publishDingState b s) = ding_state s"
  "ding_timeout (publishDingState b s) = ding_timeout s"
  "batteryLevel (publishDingState b s) = batteryLevel s"
  "has_firemware_version (publishDingState b s) = has_firemware_version s"
  "firmware_version (publishDingState b s) = firmware_version s"
  by (simp_all add: publishDingState_def)

lemma publishLockState_fields [simp]:
  "mqtt (publishLockState b s) =
     (if Some (lock_state s) \<noteq> lock_publishedState s \<or> b
      then mqtt s @ [(LockEntity, LockPayload (lock_state s))] else mqtt s)"
  "lock_publishedState (publishLockState b s) =
     (if Some (lock_state s) \<noteq> lock_publishedState s \<or> b
      then Some (lock_state s) else lock_publishedState s)"
  "timers (publishLockState b s) = timers s"
  "next_timer (publishLockState b s) = next_timer s"
  "lock_state (publishLockState b s) = lock_state s"
  "lock_unlockTimeout (publishLockState b s) = lock_unlockTimeout s"
  "ding_state (publishLockState b s) = ding_state s"
  "ding_publishedState (publishLockState b s) = ding_publishedState s"
  "ding_timeout (publishLockState b s) = ding_timeout s"
  "batteryLevel (publishLockState b s) = batteryLevel s"
  "has_firemware_version (publishLockState b s) = has_firemware_version s"
  "firmware_version (publishLockState b s) = firmware_version s"
  by (simp_all add: publishLockState_def)


lemma publishAttributes_fields [simp]:
  "mqtt (publishAttributes now pae s) =
     mqtt s @ [(InfoEntity, AttrPayload (intercom_attributes now s))]
            @ pae (intercom_attributes now s)"
  "timers (publishAttributes now pae s) = timers s"
  "next_timer (publishAttributes now pae s) = next_timer s"
  "lock_state (publishAttributes now pae s) = lock_state s"
  "lock_publishedState (publishAttributes now pae s) = lock_publishedState s"
  "lock_unlockTimeout (publishAttributes now pae s) = lock_unlockTimeout s"
  "ding_state (publishAttributes now pae s) = ding_state s"
  "ding_publishedState (publishAttributes now pae s) = ding_publishedState s"
  "ding_timeout (publishAttributes now pae s) = ding_timeout s"
  by (simp_all add: publishAttributes_def Let_def)

lemma publishState_change_detect:
  "publishState (Some d) now pae s = publishLockState False (publishDingState False s)"
  by (simp add: publishState_def Let_def)

lemma publishState_forced:
  "publishState None now pae s =
     publishAttributes now pae (publishLockState True (publishDingState True s))"
  by (simp add: publishState_def Let_def)


lemma filter_clear_same:
  assumes "distinct (map timer_id ts)"
      and "filter (\<lambda>y. callback y = cb) ts = [x]"
  shows "filter (\<lambda>y. callback y = cb) (filter (\<lambda>y. timer_id y \<noteq> timer_id x) ts) = []"
proof -
  have "y = x" if "y \<in> set ts" and "callback y = cb" for y
  proof -
    from that have "y \<in> set (filter (\<lambda>y. callback y = cb) ts)" by simp
    with assms(2) show ?thesis by simp
  qed
  then show ?thesis by (auto simp add: filter_empty_conv)
qed

lemma filter_clear_other:
  assumes "distinct (map timer_id ts)"
      and "x \<in> set ts" and "callback x \<noteq> cb'"
  shows "filter (\<lambda>y. callback y = cb') (filter (\<lambda>y. timer_id y \<noteq> timer_id x) ts) =
         filter (\<lambda>y. callback y = cb') ts"
proof -
  have ne: "timer_id y \<noteq> timer_id x" if "y \<in> set ts" and "callback y = cb'" for y
  proof
    assume "timer_id y = timer_id x"
    with assms(1) that(1) assms(2) have "y = x"
      by (meson distinct_map inj_onD)
    with that(2) assms(3) show False by simp
  qed
  have "filter (\<lambda>y. callback y = cb') (filter (\<lambda>y. timer_id y \<noteq> timer_id x) ts) =
        filter (\<lambda>y. timer_id y \<noteq> timer_id x \<and> callback y = cb') ts"
    by (simp add: filter_filter)
  also have "\<dots> = filter (\<lambda>y. callback y = cb') ts"
    by (rule filter_cong) (use ne in auto)
  finally show ?thesis .
qed

lemma rearmed_same:
  assumes "distinct (map timer_id ts)"
      and "filter (\<lambda>x. callback x = cb) ts =
             (case h of None \<Rightarrow> [] | Some t \<Rightarrow> [\<lparr>timer_id = t, callback = cb, delay = ms\<rparr>])"
      and "callback new = cb"
  shows "filter (\<lambda>x. callback x = cb) (rearmed h new ts) = [new]"
proof (cases h)
  case None
  with assms show ?thesis by (simp add: rearmed_def)
next
  case (Some t)
  with assms(2) have "filter (\<lambda>x. callback x = cb) ts =
      [\<lparr>timer_id = t, callback = cb, delay = ms\<rparr>]" by simp
  from filter_clear_same [OF assms(1) this] Some assms(3)
  show ?thesis by (simp add: rearmed_def)
qed

lemma rearmed_other:
  assumes "distinct (map timer_id ts)"
      and "filter (\<lambda>x. callback x = cb) ts =
             (case h of None \<Rightarrow> [] | Some t \<Rightarrow> [\<lparr>timer_id = t, callback = cb, delay = ms\<rparr>])"
      and "callback new = cb" and "cb' \<noteq> cb"
  shows "filter (\<lambda>x. callback x = cb') (rearmed h new ts) = filter (\<lambda>x. callback x = cb') ts"
proof (cases h)
  case None
  with assms show ?thesis by (simp add: rearmed_def)
next
  case (Some t)
  let ?x = "\<lparr>timer_id = t, callback = cb, delay = ms\<rparr>"
  from Some assms(2) have "?x \<in> set (filter (\<lambda>x. callback x = cb) ts)" by simp
  then have "?x \<in> set ts" by simp
  from filter_clear_other [OF assms(1) this, of cb'] assms(4) Some assms(3)
  show ?thesis by (simp add: rearmed_def)
qed

lemma rearmed_fresh:
  assumes "distinct (map timer_id ts)"
      and "list_all (\<lambda>x. timer_id x < n) ts"
      and "timer_id new = n"
  shows "distinct (map timer_id (rearmed h new ts)) \<and>
         list_all (\<lambda>x. timer_id x < Suc n) (rearmed h new ts)"
proof -
  let ?ts = "case h of None \<Rightarrow> ts | Some t \<Rightarrow> filter (\<lambda>x. timer_id x \<noteq> t) ts"
  have sub: "set ?ts \<subseteq> set ts" by (cases h) auto
  have d: "distinct (map timer_id ?ts)"
    using assms(1) by (cases h) (simp_all add: distinct_map_filter)
  have b: "\<forall>x \<in> set ?ts. timer_id x < n"
    using sub assms(2) by (auto simp add: list_all_iff)
  from d b assms(3) show ?thesis
    by (auto simp add: rearmed_def list_all_iff)
qed

lemma setDoorUnlocked_fields:
  "timers (setDoorUnlocked s) =
     rearmed (lock_unlockTimeout s)
       \<lparr>timer_id = next_timer s, callback = LockRevert, delay = 5000\<rparr> (timers s)"
  "next_timer (setDoorUnlocked s) = Suc (next_timer s)"
  "lock_unlockTimeout (setDoorUnlocked s) = Some (next_timer s)"
  "lock_state (setDoorUnlocked s) = UNLOCKED"
  "ding_state (setDoorUnlocked s) = ding_state s"
  "ding_timeout (setDoorUnlocked s) = ding_timeout s"
  by (cases "lock_unlockTimeout s";
      simp add: setDoorUnlocked_def setTimeout_def clearTimeout_def rearmed_def Let_def)+

lemma processDing_fields:
  "timers (processDing s) =
     rearmed (ding_timeout s)
       \<lparr>timer_id = next_timer s, callback = DingOff, delay = 15000\<rparr> (timers s)"
  "next_timer (processDing s) = Suc (next_timer s)"
  "ding_timeout (processDing s) = Some (next_timer s)"
  "ding_state (processDing s) = ON"
  "lock_state (processDing s) = lock_state s"
  "lock_unlockTimeout (processDing s) = lock_unlockTimeout s"
  by (cases "ding_timeout s";
      simp add: processDing_def setTimeout_def clearTimeout_def rearmed_def Let_def)+

lemma timers_ok_setDoorUnlocked:
  assumes "timers_ok s"
  shows "timers_ok (setDoorUnlocked s)"
proof -
  let ?new = "\<lparr>timer_id = next_timer s, callback = LockRevert, delay = 5000\<rparr>"
  from assms have d: "distinct (map timer_id (timers s))"
    and b: "list_all (\<lambda>x. timer_id x < next_timer s) (timers s)"
    and pl: "filter (\<lambda>x. callback x = LockRevert) (timers s) =
        (case lock_unlockTimeout s of None \<Rightarrow> []
         | Some t \<Rightarrow> [\<lparr>timer_id = t, callback = LockRevert, delay = 5000\<rparr>])"
    and pd: "pending DingOff s =
        (case ding_timeout s of None \<Rightarrow> []
         | Some t \<Rightarrow> [\<lparr>timer_id = t, callback = DingOff, delay = 15000\<rparr>])"
    and ds: "(ding_state s = ON) = (ding_timeout s \<noteq> None)"
    by (simp_all add: timers_ok_def pending_def)
  have 1: "pending LockRevert (setDoorUnlocked s) = [?new]"
    unfolding pending_def setDoorUnlocked_fields
    by (rule rearmed_same [OF d pl]) simp
  have 2: "pending DingOff (setDoorUnlocked s) = pending DingOff s"
    unfolding pending_def setDoorUnlocked_fields
    by (rule rearmed_other [OF d pl]) simp_all
  from rearmed_fresh [OF d b, of ?new "lock_unlockTimeout s"]
  have 3: "distinct (map timer_id (timers (setDoorUnlocked s)))"
    and 4: "list_all (\<lambda>x. timer_id x < next_timer (setDoorUnlocked s))
              (timers (setDoorUnlocked s))"
    unfolding setDoorUnlocked_fields by simp_all
  show ?thesis
    unfolding timers_ok_def using 1 2 3 4 pd ds
    by (simp add: setDoorUnlocked_fields)
qed

lemma timers_ok_processDing:
  assumes "timers_ok s"
  shows "timers_ok (processDing s)"
proof -
  let ?new = "\<lparr>timer_id = next_timer s, callback = DingOff, delay = 15000\<rparr>"
  from assms have d: "distinct (map timer_id (timers s))"
    and b: "list_all (\<lambda>x. timer_id x < next_timer s) (timers s)"
    and pd: "filter (\<lambda>x. callback x = DingOff) (timers s) =
        (case ding_timeout s of None \<Rightarrow> []
         | Some t \<Rightarrow> [\<lparr>timer_id = t, callback = DingOff, delay = 15000\<rparr>])"
    and pl: "pending LockRevert s =
        (case lock_unlockTimeout s of None \<Rightarrow> []
         | Some t \<Rightarrow> [\<lparr>timer_id = t, callback = LockRevert, delay = 5000\<rparr>])"
    and ls: "(lock_state s = UNLOCKED) = (lock_unlockTimeout s \<noteq> None)"
    by (simp_all add: timers_ok_def pending_def)
  have 1: "pending DingOff (processDing s) = [?new]"
    unfolding pending_def processDing_fields
    by (rule rearmed_same [OF d pd]) simp
  have 2: "pending LockRevert (processDing s) = pending LockRevert s"
    unfolding pending_def processDing_fields
    by (rule rearmed_other [OF d pd]) simp_all
  from rearmed_fresh [OF d b, of ?new "ding_timeout s"]
  have 3: "distinct (map timer_id (timers (processDing s)))"
    and 4: "list_all (\<lambda>x. timer_id x < next_timer (processDing s))
              (timers (processDing s))"
    unfolding processDing_fields by simp_all
  show ?thesis
    unfolding timers_ok_def using 1 2 3 4 pl ls
    by (simp add: processDing_fields)
qed


lemma timers_ok_frame:
  assumes "timers s' = timers s" and "next_timer s' = next_timer s"
      and "lock_state s' = lock_state s" and "lock_unlockTimeout s' = lock_unlockTimeout s"
      and "ding_state s' = ding_state s" and "ding_timeout s' = ding_timeout s"
  shows "timers_ok s' = timers_ok s"
  using assms by (simp add: timers_ok_def pending_def)

lemma timers_ok_publishLockState:
  "timers_ok (publishLockState b s) = timers_ok s"
  by (rule timers_ok_frame) simp_all

lemma timers_ok_publishDingState:
  "timers_ok (publishDingState b s) = timers_ok s"
  by (rule timers_ok_frame) simp_all

lemma timers_ok_publishState:
  "timers_ok (publishState d now pae s) = timers_ok s"
  by (cases d; rule timers_ok_frame;
      simp add: publishState_change_detect publishState_forced)

lemma clearTimeout_fields [simp]:
  "timers (clearTimeout t s) = filter (\<lambda>x. timer_id x \<noteq> t) (timers s)"
  "next_timer (clearTimeout t s) = next_timer s"
  "lock_state (clearTimeout t s) = lock_state s"
  "lock_publishedState (clearTimeout t s) = lock_publishedState s"
  "lock_unlockTimeout (clearTimeout t s) = lock_unlockTimeout s"
  "ding_state (clearTimeout t s) = ding_state s"
  "ding_publishedState (clearTimeout t s) = ding_publishedState s"
  "ding_timeout (clearTimeout t s) = ding_timeout s"
  "mqtt (clearTimeout t s) = mqtt s"
  by (simp_all add: clearTimeout_def)

lemma run_callback_fields:
  "timers (run_callback cb s) = timers s"
  "next_timer (run_callback cb s) = next_timer s"
  "lock_state (run_callback cb s) = (if cb = LockRevert then LOCKED else lock_state s)"
  "lock_unlockTimeout (run_callback cb s) =
     (if cb = LockRevert then None else lock_unlockTimeout s)"
  "ding_state (run_callback cb s) = (if cb = DingOff then OFF else ding_state s)"
  "ding_timeout (run_callback cb s) = (if cb = DingOff then None else ding_timeout s)"
  by (cases cb; simp)+

text \<open>A pending timeout is the one its entity's handle names.\<close>

lemma pending_is_handle:
  assumes "timers_ok s" and "x \<in> set (timers s)"
  shows "(callback x = LockRevert \<longrightarrow>
            lock_unlockTimeout s = Some (timer_id x) \<and> pending LockRevert s = [x]) \<and>
         (callback x = DingOff \<longrightarrow>
            ding_timeout s = Some (timer_id x) \<and> pending DingOff s = [x])"
proof -
  have mem: "x \<in> set (pending (callback x) s)"
    using assms(2) by (simp add: pending_def)
  show ?thesis
  proof (cases "callback x")
    case DingOff
    with mem assms(1) show ?thesis
      by (cases "ding_timeout s") (auto simp add: timers_ok_def)
  next
    case LockRevert
    with mem assms(1) show ?thesis
      by (cases "lock_unlockTimeout s") (auto simp add: timers_ok_def)
  qed
qed

lemma timers_ok_fire:
  assumes "timers_ok s"
  shows "timers_ok (fire t s)"
proof (cases "find (\<lambda>x. timer_id x = t) (timers s)")
  case None
  then show ?thesis using assms by (simp add: fire_def)
next
  case (Some x)
  then have x: "x \<in> set (timers s)" and t: "t = timer_id x"
    by (auto simp add: find_Some_iff)
  from assms have d: "distinct (map timer_id (timers s))"
    and b: "list_all (\<lambda>x. timer_id x < next_timer s) (timers s)"
    and ls: "(lock_state s = UNLOCKED) = (lock_unlockTimeout s \<noteq> None)"
    and ds: "(ding_state s = ON) = (ding_timeout s \<noteq> None)"
    and pl: "pending LockRevert s =
        (case lock_unlockTimeout s of None \<Rightarrow> []
         | Some t \<Rightarrow> [\<lparr>timer_id = t, callback = LockRevert, delay = 5000\<rparr>])"
    and pd: "pending DingOff s =
        (case ding_timeout s of None \<Rightarrow> []
         | Some t \<Rightarrow> [\<lparr>timer_id = t, callback = DingOff, delay = 15000\<rparr>])"
    by (simp_all add: timers_ok_def)
  have f: "fire t s = run_callback (callback x) (clearTimeout (timer_id x) s)"
    using Some t by (simp add: fire_def)
  have d': "distinct (map timer_id (timers (fire t s)))"
    using d by (simp add: f run_callback_fields distinct_map_filter)
  have b': "list_all (\<lambda>x. timer_id x < next_timer (fire t s)) (timers (fire t s))"
    using b by (simp add: f run_callback_fields list_all_iff)
  show ?thesis
  proof (cases "callback x")
    case LockRevert
    with pending_is_handle [OF assms x]
    have h: "lock_unlockTimeout s = Some (timer_id x)" and p: "pending LockRevert s = [x]"
      by simp_all
    have 1: "pending LockRevert (fire t s) = []"
      using filter_clear_same [OF d p [unfolded pending_def]]
      by (simp add: f pending_def run_callback_fields)
    have 2: "pending DingOff (fire t s) = pending DingOff s"
      using filter_clear_other [OF d x, of DingOff] LockRevert
      by (simp add: f pending_def run_callback_fields)
    show ?thesis
      unfolding timers_ok_def using 1 2 d' b' pd ds LockRevert
      by (simp add: f run_callback_fields)
  next
    case DingOff
    with pending_is_handle [OF assms x]
    have h: "ding_timeout s = Some (timer_id x)" and p: "pending DingOff s = [x]"
      by simp_all
    have 1: "pending DingOff (fire t s) = []"
      using filter_clear_same [OF d p [unfolded pending_def]]
      by (simp add: f pending_def run_callback_fields)
    have 2: "pending LockRevert (fire t s) = pending LockRevert s"
      using filter_clear_other [OF d x, of LockRevert] DingOff
      by (simp add: f pending_def run_callback_fields)
    show ?thesis
      unfolding timers_ok_def using 1 2 d' b' pl ls DingOff
      by (simp add: f run_callback_fields)
  qed
qed

lemma timers_ok_processCommand:
  assumes "timers_ok s"
  shows "timers_ok (processCommand c m ok s)"
  using assms timers_ok_setDoorUnlocked [OF assms]
  by (simp add: processCommand_def setLockState_def Let_def timers_ok_publishLockState)

lemma timers_ok_step:
  assumes "timers_ok s"
  shows "timers_ok (intercom_step pae e s)"
  using assms
  by (cases e)
     (simp_all add: intercom_step_def timers_ok_setDoorUnlocked timers_ok_processDing
        timers_ok_fire timers_ok_processCommand timers_ok_publishState)

lemma timers_ok_new: "timers_ok (intercom_new b hf fw)"
  by (simp add: timers_ok_def pending_def intercom_new_def)

lemma timers_ok_run:
  assumes "timers_ok s"
  shows "timers_ok (intercom_run pae es s)"
  using assms
  by (induction es arbitrary: s) (simp_all add: timers_ok_step)

lemma pending_at_most_one:
  assumes "timers_ok s"
  shows "length (pending LockRevert s) \<le> 1 \<and> length (pending DingOff s) \<le> 1"
  using assms
  by (cases "lock_unlockTimeout s"; cases "ding_timeout s") (simp_all add: timers_ok_def)

lemma unlocked_reverts:
  assumes "timers_ok s" and "lock_state s = UNLOCKED"
  shows "\<exists>t. lock_unlockTimeout s = Some t \<and>
             pending LockRevert s = [\<lparr>timer_id = t, callback = LockRevert, delay = 5000\<rparr>] \<and>
             lock_state (fire t s) = LOCKED \<and>
             lock_unlockTimeout (fire t s) = None \<and>
             pending LockRevert (fire t s) = []"
proof -
  from assms obtain t where h: "lock_unlockTimeout s = Some t"
    by (auto simp add: timers_ok_def)
  let ?x = "\<lparr>timer_id = t, callback = LockRevert, delay = 5000\<rparr>"
  from assms(1) h have p: "pending LockRevert s = [?x]"
    by (simp add: timers_ok_def)
  then have "?x \<in> set (pending LockRevert s)" by simp
  then have x: "?x \<in> set (timers s)" by (simp add: pending_def)
  from assms(1) have d: "distinct (map timer_id (timers s))"
    by (simp add: timers_ok_def)
  have "find (\<lambda>y. timer_id y = t) (timers s) = Some ?x"
  proof (cases "find (\<lambda>y. timer_id y = t) (timers s)")
    case None
    with x show ?thesis by (auto simp add: find_None_iff)
  next
    case (Some y)
    then have "y \<in> set (timers s)" and "timer_id y = t"
      by (auto simp add: find_Some_iff)
    with d x have "y = ?x" by (metis distinct_map inj_onD timer.select_convs(1))
    with Some show ?thesis by simp
  qed
  then have f: "fire t s = run_callback LockRevert (clearTimeout t s)"
    by (simp add: fire_def)
  have ok: "timers_ok (fire t s)" by (rule timers_ok_fire [OF assms(1)])
  have l: "lock_unlockTimeout (fire t s) = None" "lock_state (fire t s) = LOCKED"
    by (simp_all add: f run_callback_fields)
  from ok l have "pending LockRevert (fire t s) = []"
    by (simp add: timers_ok_def)
  with h p l show ?thesis by simp
qed


lemma ringing_reverts:
  assumes "timers_ok s" and "ding_state s = ON"
  shows "\<exists>t. ding_timeout s = Some t \<and>
             pending DingOff s = [\<lparr>timer_id = t, callback = DingOff, delay = 15000\<rparr>] \<and>
             ding_state (fire t s) = OFF \<and>
             ding_timeout (fire t s) = None \<and>
             pending DingOff (fire t s) = []"
proof -
  from assms obtain t where h: "ding_timeout s = Some t"
    by (auto simp add: timers_ok_def)
  let ?x = "\<lparr>timer_id = t, callback = DingOff, delay = 15000\<rparr>"
  from assms(1) h have p: "pending DingOff s = [?x]"
    by (simp add: timers_ok_def)
  then have "?x \<in> set (pending DingOff s)" by simp
  then have x: "?x \<in> set (timers s)" by (simp add: pending_def)
  from assms(1) have d: "distinct (map timer_id (timers s))"
    by (simp add: timers_ok_def)
  have "find (\<lambda>y. timer_id y = t) (timers s) = Some ?x"
  proof (cases "find (\<lambda>y. timer_id y = t) (timers s)")
    case None
    with x show ?thesis by (auto simp add: find_None_iff)
  next
    case (Some y)
    then have "y \<in> set (timers s)" and "timer_id y = t"
      by (auto simp add: find_Some_iff)
    with d x have "y = ?x" by (metis distinct_map inj_onD timer.select_convs(1))
    with Some show ?thesis by simp
  qed
  then have f: "fire t s = run_callback DingOff (clearTimeout t s)"
    by (simp add: fire_def)
  have ok: "timers_ok (fire t s)" by (rule timers_ok_fire [OF assms(1)])
  have l: "ding_timeout (fire t s) = None" "ding_state (fire t s) = OFF"
    by (simp_all add: f run_callback_fields)
  from ok l have "pending DingOff (fire t s) = []"
    by (simp add: timers_ok_def)
  with h p l show ?thesis by simp
qed

text \<open>
  Claim C4, for every state \<open>s\<close> a new wrapper reaches by any sequence of events
  (unlock and ding reports, timeouts running, commands, state publishes): each entity
  has at most one pending timeout; while the lock is UNLOCKED exactly one auto-revert is
  pending, with the fixed delay of 5000 ms, and when it runs the lock is LOCKED again and
  no revert is pending (likewise ON, 15000 ms and OFF for the ding); a new unlock (a new
  ding) in \<open>s\<close> leaves exactly the newly armed timeout pending for its entity, whatever
  was pending before.
\<close>

theorem C4_single_pending_timer:
  assumes "s = intercom_run pae es (intercom_new b hf fw)"
  shows "length (pending LockRevert s) \<le> 1 \<and>
         length (pending DingOff s) \<le> 1 \<and>
         (lock_state s = UNLOCKED \<longrightarrow>
            (\<exists>t. lock_unlockTimeout s = Some t \<and>
                 pending LockRevert s =
                   [\<lparr>timer_id = t, callback = LockRevert, delay = 5000\<rparr>] \<and>
                 lock_state (fire t s) = LOCKED \<and>
                 pending LockRevert (fire t s) = [])) \<and>
         (ding_state s = ON \<longrightarrow>
            (\<exists>t. ding_timeout s = Some t \<and>
                 pending DingOff s =
                   [\<lparr>timer_id = t, callback = DingOff, delay = 15000\<rparr>] \<and>
                 ding_state (fire t s) = OFF \<and>
                 pending DingOff (fire t s) = [])) \<and>
         lock_state (setDoorUnlocked s) = UNLOCKED \<and>
         pending LockRevert (setDoorUnlocked s) =
           [\<lparr>timer_id = next_timer s, callback = LockRevert, delay = 5000\<rparr>] \<and>
         ding_state (processDing s) = ON \<and>
         pending DingOff (processDing s) =
           [\<lparr>timer_id = next_timer s, callback = DingOff, delay = 15000\<rparr>]"
proof -
  have ok: "timers_ok s"
    unfolding assms by (rule timers_ok_run [OF timers_ok_new])
  have u: "pending LockRevert (setDoorUnlocked s) =
      [\<lparr>timer_id = next_timer s, callback = LockRevert, delay = 5000\<rparr>]"
    using timers_ok_setDoorUnlocked [OF ok]
    by (simp add: timers_ok_def setDoorUnlocked_fields)
  have r: "pending DingOff (processDing s) =
      [\<lparr>timer_id = next_timer s, callback = DingOff, delay = 15000\<rparr>]"
    using timers_ok_processDing [OF ok]
    by (simp add: timers_ok_def processDing_fields)
  from pending_at_most_one [OF ok] unlocked_reverts [OF ok] ringing_reverts [OF ok] u r
  show ?thesis
    by (simp add: setDoorUnlocked_fields processDing_fields) blast
qed

text \<open>
  C4 after an unlock, a ding and a second unlock: the first revert timeout (handle 0) is
  gone, the second (handle 2) is the only one pending for the lock, and it locks.
\<close>

theorem C4_single_pending_timer_witness:
  "lock_state unlocked_twice = UNLOCKED \<and>
   timers unlocked_twice =
     [\<lparr>timer_id = 1, callback = DingOff, delay = 15000\<rparr>,
      \<lparr>timer_id = 2, callback = LockRevert, delay = 5000\<rparr>] \<and>
   lock_state (fire 2 unlocked_twice) = LOCKED \<and>
   pending LockRevert (fire 2 unlocked_twice) = [] \<and>
   pending LockRevert (setDoorUnlocked unlocked_twice) =
     [\<lparr>timer_id = 3, callback = LockRevert, delay = 5000\<rparr>]"
proof -
  let ?s1 = "setDoorUnlocked (intercom_new None False None)"
  let ?s2 = "processDing ?s1"
  have s: "unlocked_twice = setDoorUnlocked ?s2"
    by (simp add: unlocked_twice_def intercom_step_def)
  have n: "next_timer unlocked_twice = 3" "lock_unlockTimeout unlocked_twice = Some 2"
    "lock_state unlocked_twice = UNLOCKED"
    by (simp_all add: s setDoorUnlocked_fields processDing_fields intercom_new_def)
  have t: "timers unlocked_twice =
     [\<lparr>timer_id = 1, callback = DingOff, delay = 15000\<rparr>,
      \<lparr>timer_id = 2, callback = LockRevert, delay = 5000\<rparr>]"
    by (simp add: s setDoorUnlocked_fields processDing_fields intercom_new_def rearmed_def)
  from C4_single_pending_timer [of unlocked_twice "\<lambda>a. []" "[OnUnlocked, OnDing, OnUnlocked]" None False None]
  show ?thesis using n t by (simp add: unlocked_twice_def)
qed



section \<open>Properties of the republish cycle\<close>

lemma updateLocation_fields [simp]:
  "republishCount (updateLocation l f s) = republishCount s"
  "mqttConnected (updateLocation l f s) = mqttConnected s"
  "rtasks (updateLocation l f s) = rtasks s"
  "cycles (updateLocation l f s) = cycles s"
  "deviceLocations (updateLocation l f s) = deviceLocations s"
  by (simp_all add: updateLocation_def)

lemma publishCycle_fields [simp]:
  "republishCount (publishCycle l s) = republishCount s"
  "mqttConnected (publishCycle l s) = mqttConnected s"
  "rtasks (publishCycle l s) = rtasks s"
  "locations (publishCycle l s) = locations s"
  "deviceLocations (publishCycle l s) = deviceLocations s"
  "length (cycles (publishCycle l s)) = Suc (length (cycles s))"
  by (simp_all add: publishCycle_def)

lemma publishDevices_fields [simp]:
  "republishCount (publishDevices l s) = republishCount s"
  "mqttConnected (publishDevices l s) = mqttConnected s"
  by (simp_all add: publishDevices_def)

lemma publishDevices_stopped:
  assumes "\<not> (0 < republishCount s \<and> mqttConnected s)"
  shows "publishDevices l s = s"
  using assms by (auto simp add: publishDevices_def)

lemma onConnected_subscriber_fields [simp]:
  "republishCount (onConnected_subscriber l c s) = republishCount s"
  "mqttConnected (onConnected_subscriber l c s) = mqttConnected s"
  by (simp_all add: onConnected_subscriber_def split: option.splits)

lemma loops_append [simp]: "loops (s\<lparr>rtasks := ts @ [t]\<rparr>) = filter is_loop ts @ (if is_loop t then [t] else [])"
  by (simp add: loops_def)

lemma onConnected_subscriber_stopped:
  assumes "\<not> (0 < republishCount s \<and> mqttConnected s)"
  shows "loops (onConnected_subscriber l c s) = loops s"
  using assms
  by (auto simp add: onConnected_subscriber_def publishDevices_stopped loops_def
      split: option.splits)

lemma subscribeToLocationWebsocket_fields [simp]:
  "republishCount (subscribeToLocationWebsocket l s) = republishCount s"
  "mqttConnected (subscribeToLocationWebsocket l s) = mqttConnected s"
  by (simp_all add: subscribeToLocationWebsocket_def Let_def split: option.splits)

lemma subscribeToLocationWebsocket_stopped:
  assumes "\<not> (0 < republishCount s \<and> mqttConnected s)"
  shows "loops (subscribeToLocationWebsocket l s) = loops s"
proof -
  let ?s1 = "updateLocation l (\<lambda>x. x\<lparr>isSubscribed := True\<rparr>) s"
  have g: "\<not> (0 < republishCount ?s1 \<and> mqttConnected ?s1)" using assms by simp
  have l: "loops ?s1 = loops s" by (simp add: loops_def)
  show ?thesis
    using onConnected_subscriber_stopped [OF g] l
    by (simp add: subscribeToLocationWebsocket_def Let_def split: option.splits)
qed

lemma publishLocationsFrom_fields [simp]:
  "republishCount (publishLocationsFrom ls s) = republishCount s"
  "mqttConnected (publishLocationsFrom ls s) = mqttConnected s"
  by (induction ls s rule: publishLocationsFrom.induct; simp split: option.splits)+

lemma publishLocationsFrom_stopped:
  assumes "\<not> (0 < republishCount s \<and> mqttConnected s)"
  shows "loops (publishLocationsFrom ls s) = loops s"
  using assms
proof (induction ls s rule: publishLocationsFrom.induct)
  case (1 s)
  then show ?case by simp
next
  case (2 l ls s)
  show ?case
  proof (cases "find (\<lambda>x. locationId x = l) (locations s)")
    case None
    with 2 show ?thesis by simp
  next
    case (Some loc)
    show ?thesis
    proof (cases "l \<in> set (deviceLocations s) \<and> hasHubs loc \<and> \<not> isSubscribed loc")
      case True
      have g: "\<not> (0 < republishCount (subscribeToLocationWebsocket l s) \<and>
                  mqttConnected (subscribeToLocationWebsocket l s))"
        using "2.prems" by simp
      from "2.IH"(2) [OF Some _ _ g] True
      have "loops (publishLocationsFrom ls (subscribeToLocationWebsocket l s)) =
            loops (subscribeToLocationWebsocket l s)" by simp
      with subscribeToLocationWebsocket_stopped [OF "2.prems"] Some True
      show ?thesis by simp
    next
      case False
      with 2 Some show ?thesis by auto
    qed
  qed
qed


lemma filter_without_nth:
  assumes "i < length ts" and "P (ts ! i)"
  shows "Suc (length (filter P (take i ts @ drop (Suc i) ts))) = length (filter P ts)"
proof -
  have "ts = take i ts @ [ts ! i] @ drop (Suc i) ts"
    using assms(1) by (simp add: id_take_nth_drop)
  then have "filter P ts = filter P (take i ts) @ [ts ! i] @ filter P (drop (Suc i) ts)"
    using assms(2) by (metis filter.simps(2) filter_append append_Cons append_Nil filter.simps(1))
  then show ?thesis by simp
qed

text \<open>The end of one sleep of a loop, written out.\<close>

lemma wake_loop:
  assumes "i < length (rtasks s)" and "rtasks s ! i = PublishDevicesSleep l ls"
  shows "ringmqtt_step (Wake i) s =
     (let s1 = s\<lparr>rtasks := take i (rtasks s) @ drop (Suc i) (rtasks s),
                  republishCount := republishCount s - 1\<rparr>
      in if 1 < republishCount s \<and> mqttConnected s
         then (publishCycle l s1)\<lparr>rtasks := rtasks s1 @ [PublishDevicesSleep l ls]\<rparr>
         else publishLocationsFrom ls s1)"
  using assms by (simp add: ringmqtt_step_def Let_def)

lemma wake_loop_count:
  assumes "i < length (rtasks s)" and "rtasks s ! i = PublishDevicesSleep l ls"
  shows "republishCount (ringmqtt_step (Wake i) s) = republishCount s - 1"
  unfolding wake_loop [OF assms] by (simp add: Let_def)

lemma wake_loop_loops:
  assumes "i < length (rtasks s)" and "rtasks s ! i = PublishDevicesSleep l ls"
  shows "length (loops (ringmqtt_step (Wake i) s)) =
           (if 1 < republishCount s \<and> mqttConnected s
            then length (loops s) else length (loops s) - 1)"
proof -
  let ?s1 = "s\<lparr>rtasks := take i (rtasks s) @ drop (Suc i) (rtasks s),
                 republishCount := republishCount s - 1\<rparr>"
  have n: "Suc (length (loops ?s1)) = length (loops s)"
    using filter_without_nth [OF assms(1), of is_loop] assms(2) by (simp add: loops_def)
  show ?thesis
  proof (cases "1 < republishCount s \<and> mqttConnected s")
    case True
    have "ringmqtt_step (Wake i) s =
        (publishCycle l ?s1)\<lparr>rtasks := rtasks ?s1 @ [PublishDevicesSleep l ls]\<rparr>"
      unfolding wake_loop [OF assms] Let_def if_P [OF True] ..
    then have "length (loops (ringmqtt_step (Wake i) s)) = Suc (length (loops ?s1))"
      by (simp add: loops_def)
    with n True show ?thesis by simp
  next
    case False
    then have g: "\<not> (0 < republishCount ?s1 \<and> mqttConnected ?s1)" by auto
    have "ringmqtt_step (Wake i) s = publishLocationsFrom ls ?s1"
      unfolding wake_loop [OF assms] Let_def if_not_P [OF False] ..
    then have "loops (ringmqtt_step (Wake i) s) = loops ?s1"
      using publishLocationsFrom_stopped [OF g, of ls] by simp
    with n False show ?thesis by auto
  qed
qed

lemma run_single_loop:
  assumes "rtasks s = [PublishDevicesSleep l []]" and "mqttConnected s"
      and "republishCount s = int (Suc n)"
  shows "republishCount (ringmqtt_run (replicate (Suc n) (Wake 0)) s) = 0 \<and>
         rtasks (ringmqtt_run (replicate (Suc n) (Wake 0)) s) = [] \<and>
         length (cycles (ringmqtt_run (replicate (Suc n) (Wake 0)) s)) = length (cycles s) + n"
  using assms
proof (induction n arbitrary: s)
  case 0
  then have w: "0 < length (rtasks s)" "rtasks s ! 0 = PublishDevicesSleep l []" by simp_all
  show ?case
    using 0 by (simp add: wake_loop [OF w] Let_def)
next
  case (Suc n)
  then have w: "0 < length (rtasks s)" "rtasks s ! 0 = PublishDevicesSleep l []" by simp_all
  let ?s' = "ringmqtt_step (Wake 0) s"
  have a: "rtasks ?s' = [PublishDevicesSleep l []]" "mqttConnected ?s'"
    "republishCount ?s' = int (Suc n)" "length (cycles ?s') = Suc (length (cycles s))"
    using Suc.prems by (simp_all add: wake_loop [OF w] Let_def)
  from Suc.IH [OF a(1) a(2) a(3)] a(4)
  show ?case by simp
qed

lemma ha_online_running:
  assumes "0 < republishCount s"
  shows "ringmqtt_step (HaStatus ''online'') s = s\<lparr>republishCount := 6\<rparr>"
  using assms by (simp add: ringmqtt_step_def handleHomeAssistantRestart_def)

lemma ha_online_idle:
  assumes "republishCount s \<le> 0"
  shows "ringmqtt_step (HaStatus ''online'') s = s\<lparr>rtasks := rtasks s @ [HomeAssistantSleep]\<rparr>"
    and "ringmqtt_step (Wake (length (rtasks s))) (ringmqtt_step (HaStatus ''online'') s) =
           publishLocations (s\<lparr>republishCount := 6\<rparr>)"
    and "republishCount (ringmqtt_step (Wake (length (rtasks s)))
           (ringmqtt_step (HaStatus ''online'') s)) = 6"
proof -
  show 1: "ringmqtt_step (HaStatus ''online'') s = s\<lparr>rtasks := rtasks s @ [HomeAssistantSleep]\<rparr>"
    using assms by (simp add: ringmqtt_step_def handleHomeAssistantRestart_def)
  show 2: "ringmqtt_step (Wake (length (rtasks s))) (ringmqtt_step (HaStatus ''online'') s) =
           publishLocations (s\<lparr>republishCount := 6\<rparr>)"
    unfolding 1 by (simp add: ringmqtt_step_def)
  show "republishCount (ringmqtt_step (Wake (length (rtasks s)))
           (ringmqtt_step (HaStatus ''online'') s)) = 6"
    unfolding 2 by (simp add: publishLocations_def)
qed


text \<open>
  Claim C3. A new controller has the counter at 6. When the sleep of a loop of
  \<^verbatim>\<open>publishDevices\<close> ends, the counter goes down by exactly 1, and the loop goes on
  only if the counter is still above 0 and MQTT is connected: otherwise the number of
  loops under way drops by one. A single loop under way, with MQTT connected and the
  counter at \<open>n + 1\<close>, ends after \<open>n + 1\<close> sleeps with the counter at 0, no call
  suspended, and \<open>n\<close> more passes through its body. A Home Assistant \<^verbatim>\<open>online\<close>
  message that finds the counter above 0 sets it to 6 and changes nothing else: no call
  is started or suspended. One that finds the counter at 0 (or below) only suspends the
  handler in its sleep of 15 seconds; when that sleep ends the counter is 6 and
  \<^verbatim>\<open>publishLocations\<close> runs.
\<close>

theorem C3_republish_counter:
  "republishCount (ringmqtt_new locs devs) = 6 \<and>
   (i < length (rtasks s) \<and> rtasks s ! i = PublishDevicesSleep l ls \<longrightarrow>
      republishCount (ringmqtt_step (Wake i) s) = republishCount s - 1 \<and>
      length (loops (ringmqtt_step (Wake i) s)) =
        (if 1 < republishCount s \<and> mqttConnected s
         then length (loops s) else length (loops s) - 1)) \<and>
   (rtasks s = [PublishDevicesSleep l []] \<and> mqttConnected s \<and>
    republishCount s = int (Suc n) \<longrightarrow>
      republishCount (ringmqtt_run (replicate (Suc n) (Wake 0)) s) = 0 \<and>
      rtasks (ringmqtt_run (replicate (Suc n) (Wake 0)) s) = [] \<and>
      length (cycles (ringmqtt_run (replicate (Suc n) (Wake 0)) s)) =
        length (cycles s) + n) \<and>
   (0 < republishCount s \<longrightarrow>
      ringmqtt_step (HaStatus ''online'') s = s\<lparr>republishCount := 6\<rparr>) \<and>
   (republishCount s \<le> 0 \<longrightarrow>
      ringmqtt_step (HaStatus ''online'') s =
        s\<lparr>rtasks := rtasks s @ [HomeAssistantSleep]\<rparr> \<and>
      ringmqtt_step (Wake (length (rtasks s))) (ringmqtt_step (HaStatus ''online'') s) =
        publishLocations (s\<lparr>republishCount := 6\<rparr>) \<and>
      republishCount (ringmqtt_step (Wake (length (rtasks s)))
        (ringmqtt_step (HaStatus ''online'') s)) = 6)"
proof -
  have 1: "republishCount (ringmqtt_new locs devs) = 6"
    by (simp add: ringmqtt_new_def)
  from 1 wake_loop_count [of i s l ls] wake_loop_loops [of i s l ls]
    run_single_loop [of s l n] ha_online_running [of s] ha_online_idle [of s]
  show ?thesis by blast
qed

lemma home_publishing_eq:
  "home_publishing =
     \<lparr> republishCount = 6, mqttConnected = True, locations = [home],
       deviceLocations = [''home''], rtasks = [PublishDevicesSleep ''home'' []],
       cycles = [(''home'', 1)] \<rparr>"
  by (simp add: home_publishing_def home_controller_def ringmqtt_new_def ringmqtt_step_def
      publishLocations_def publishCycle_def home_def Let_def)

text \<open>
  C3 at the controller of one location without hubs that has one device: MQTT connects,
  the loop runs its six cycles and stops at 0; a Home Assistant restart during the
  loop (counter at 5) puts the counter back to 6 with the one loop still under way;
  a restart after the loop has stopped waits and then starts over at 6.
\<close>

theorem C3_republish_counter_witness:
  "republishCount home_controller = 6 \<and>
   rtasks home_publishing = [PublishDevicesSleep ''home'' []] \<and>
   republishCount (ringmqtt_step (Wake 0) home_publishing) = 5 \<and>
   ringmqtt_step (HaStatus ''online'') (ringmqtt_step (Wake 0) home_publishing) =
     (ringmqtt_step (Wake 0) home_publishing)\<lparr>republishCount := 6\<rparr> \<and>
   republishCount home_idle = 0 \<and> rtasks home_idle = [] \<and> length (cycles home_idle) = 6 \<and>
   ringmqtt_step (HaStatus ''online'') home_idle = home_idle\<lparr>rtasks := [HomeAssistantSleep]\<rparr> \<and>
   republishCount (ringmqtt_step (Wake 0) (ringmqtt_step (HaStatus ''online'') home_idle)) = 6"
proof -
  let ?s5 = "ringmqtt_step (Wake 0) home_publishing"
  have a1: "rtasks home_publishing = [PublishDevicesSleep ''home'' []]"
    by (simp add: home_publishing_eq)
  have a2: "mqttConnected home_publishing"
    by (simp add: home_publishing_eq)
  have a3: "republishCount home_publishing = int (Suc 5)"
    by (simp add: home_publishing_eq)
  have a4: "0 < length (rtasks home_publishing) \<and>
      rtasks home_publishing ! 0 = PublishDevicesSleep ''home'' []"
    by (simp add: a1)
  have a5: "length (cycles home_publishing) = 1"
    by (simp add: home_publishing_eq)
  have r: "replicate 6 (Wake 0) = replicate (Suc 5) (Wake 0)"
    by (simp add: eval_nat_numeral)
  note T1 = C3_republish_counter [where i = 0 and s = home_publishing and l = "''home''" and ls = "[]"
      and locs = "[home]" and devs = "[''home'']" and n = 5]
  from T1 have b1: "republishCount home_controller = 6"
    unfolding home_controller_def by blast
  from T1 a4 have "republishCount ?s5 = republishCount home_publishing - 1"
    by blast
  with a3 have b2: "republishCount ?s5 = 5" by simp
  from T1 a1 a2 a3
  have "republishCount home_idle = 0 \<and> rtasks home_idle = [] \<and>
        length (cycles home_idle) = length (cycles home_publishing) + 5"
    unfolding home_idle_def r by blast
  with a5 have b3: "republishCount home_idle = 0" "rtasks home_idle = []"
    "length (cycles home_idle) = 6" by simp_all
  note T2 = C3_republish_counter [where i = 0 and s = ?s5 and l = "''home''" and ls = "[]"
      and locs = "[home]" and devs = "[''home'']" and n = 5]
  have "0 < republishCount ?s5" using b2 by simp
  with T2 have c: "ringmqtt_step (HaStatus ''online'') ?s5 = ?s5\<lparr>republishCount := 6\<rparr>"
    by blast
  note T3 = C3_republish_counter [where i = 0 and s = home_idle and l = "''home''" and ls = "[]"
      and locs = "[home]" and devs = "[''home'']" and n = 5]
  have "republishCount home_idle \<le> 0" using b3(1) by simp
  with T3 have "ringmqtt_step (HaStatus ''online'') home_idle =
        home_idle\<lparr>rtasks := rtasks home_idle @ [HomeAssistantSleep]\<rparr> \<and>
      republishCount (ringmqtt_step (Wake (length (rtasks home_idle)))
        (ringmqtt_step (HaStatus ''online'') home_idle)) = 6"
    by blast
  then have e1: "ringmqtt_step (HaStatus ''online'') home_idle =
        home_idle\<lparr>rtasks := rtasks home_idle @ [HomeAssistantSleep]\<rparr>"
    and e2: "republishCount (ringmqtt_step (Wake (length (rtasks home_idle)))
        (ringmqtt_step (HaStatus ''online'') home_idle)) = 6"
    by blast+
  have d1: "ringmqtt_step (HaStatus ''online'') home_idle =
        home_idle\<lparr>rtasks := [HomeAssistantSleep]\<rparr>"
    using e1 unfolding b3(2) by simp
  have d2: "republishCount (ringmqtt_step (Wake 0)
        (ringmqtt_step (HaStatus ''online'') home_idle)) = 6"
    using e2 unfolding b3(2) by simp
  note d = d1 d2
  from a1 b1 b2 b3 c d show ?thesis by blast
qed

section \<open>Properties of the topics\<close>

text \<open>The four topics of the contact sensor follow the scheme of the spec.\<close>

lemma ContactSensor_topics_follow_scheme:
  "configTopic (ContactSensor_init this) =
     spec_configTopic (cs_component (ContactSensor_init this)) (dev_locationId this)
       (deviceId this) \<and>
   stateTopic (ContactSensor_init this) =
     spec_stateTopic (alarmTopic this) (cs_component (ContactSensor_init this))
       (deviceId this) (sensorType (ContactSensor_init this)) \<and>
   attributesTopic (ContactSensor_init this) =
     spec_attributesTopic (alarmTopic this) (cs_component (ContactSensor_init this))
       (deviceId this) \<and>
   availabilityTopic (ContactSensor_init this) =
     spec_availabilityTopic (alarmTopic this) (cs_component (ContactSensor_init this))
       (deviceId this) \<and>
   cs_component (ContactSensor_init this) = ''binary_sensor''"
  by (simp add: ContactSensor_init_def Let_def spec_configTopic_def spec_stateTopic_def
      spec_attributesTopic_def spec_availabilityTopic_def)

text \<open>For instance, a door sensor.\<close>

lemma door_sensor_topics:
  "configTopic (ContactSensor_init door_sensor) = ''homeassistant/binary_sensor/loc1/dev2/config'' \<and>
   stateTopic (ContactSensor_init door_sensor) =
     ''ring/loc1/alarm/binary_sensor/dev2/contact_state'' \<and>
   attributesTopic (ContactSensor_init door_sensor) =
     ''ring/loc1/alarm/binary_sensor/dev2/attributes'' \<and>
   availabilityTopic (ContactSensor_init door_sensor) =
     ''ring/loc1/alarm/binary_sensor/dev2/status'' \<and>
   className (ContactSensor_init door_sensor) = ''door''"
  by (simp add: ContactSensor_init_def door_sensor_def Let_def)

text \<open>On a global object without the two identifiers, every Beam wrapper fails.\<close>

lemma Beam_init_throws: "Beam_init (\<lambda>x. None) this = Inl ReferenceError"
  by (simp add: Beam_init_def)

text \<open>
  Claim C5 says that the topics of every wrapper follow the scheme, the Beam wrapper's
  motion and light entities included. The contact sensor's do (lemma above). The Beam
  wrapper's do not: \<^verbatim>\<open>Beam.init\<close> assigns its availability topic to an identifier that
  nothing declares and reads another one, so on a global object without them it throws
  a ReferenceError before it has set a topic; and on a global object that has both, the
  state topic of the light lacks the slash before \<^verbatim>\<open>switch_state\<close> (as the brightness
  topics do), and the availability topic (under \<^verbatim>\<open>/beam/\<close>) ends up in the global
  variable, not in the wrapper. The scheme asks for the last two lines.
\<close>

theorem C5_beam_topics_off_scheme:
  "Beam_init (\<lambda>x. None) beam_light = Inl ReferenceError \<and>
   (\<exists>g b. Beam_init beam_globals beam_light = Inr (g, b) \<and>
      stateTopic_light b = Some ''ring/loc1/alarm/light/dev1switch_state'' \<and>
      stateTopic_brightness b = Some ''ring/loc1/alarm/light/dev1brightness_state'' \<and>
      stateTopic_motion b = Some ''ring/loc1/alarm/binary_sensor/dev1/motion_state'' \<and>
      beam_availabilityTopic b = None \<and>
      g ''availabilityTopic'' = Some ''ring/loc1/alarm/beam/dev1/status'') \<and>
   spec_stateTopic (alarmTopic beam_light) ''light'' (deviceId beam_light) ''switch'' =
     ''ring/loc1/alarm/light/dev1/switch_state'' \<and>
   spec_availabilityTopic (alarmTopic beam_light) ''light'' (deviceId beam_light) =
     ''ring/loc1/alarm/light/dev1/status''"
  by (simp add: Beam_init_def beam_light_def beam_globals_def Let_def js_string_def
      spec_stateTopic_def spec_availabilityTopic_def)

section \<open>Properties of the media server supervisor\<close>

text \<open>
  Claim C10 says that after \<^verbatim>\<open>shutdown()\<close> no \<^verbatim>\<open>close\<close> event restarts the server.
  When \<^verbatim>\<open>shutdown()\<close> is called while the handler of a crash waits its five seconds,
  the handler goes on to call \<^verbatim>\<open>this.init()\<close>, which sets \<^verbatim>\<open>started\<close> back to
  \<^verbatim>\<open>true\<close> and spawns a second process; when that process closes, the supervisor
  restarts it again. After the first four events the supervisor is shut down with one
  process spawned; after the other four, three processes have been spawned and the
  supervisor is running.
\<close>

theorem C10_restart_after_shutdown:
  "started (mediamtx_run crash_then_shutdown mediamtx_new) = Started_shutdown \<and>
   spawned (mediamtx_run crash_then_shutdown mediamtx_new) = 1 \<and>
   mtx_tasks (mediamtx_run crash_then_shutdown mediamtx_new) = [RestartSleep5 0] \<and>
   mediamtx_run (crash_then_shutdown @ after_the_shutdown) mediamtx_new =
     \<lparr> started = Started_true, mediamtxProcess = Some 2, spawned = 3,
       kills = [(0, SIGKILL), (0, SIGTERM), (1, SIGKILL)], configWritten = 1,
       mtx_tasks = [] \<rparr>"
  by (simp add: crash_then_shutdown_def after_the_shutdown_def mediamtx_new_def
      mediamtx_step_def mediamtx_init_def mediamtx_shutdown_def Let_def)

text \<open>
  What does hold of C10: once the supervisor is shut down with no restart waiting, no
  event but a new call of \<^verbatim>\<open>init\<close> spawns a process; and before shutdown the handler
  of a \<^verbatim>\<open>close\<close> event kills the current process and schedules one restart.
\<close>

lemma settled_step:
  assumes "settled s" and "e \<noteq> Init"
  shows "settled (mediamtx_step e s) \<and> spawned (mediamtx_step e s) = spawned s"
proof (cases e)
  case Init
  with assms show ?thesis by simp
next
  case (Close p)
  with assms show ?thesis by (simp add: mediamtx_step_def settled_def)
next
  case (HandlerWakes i)
  show ?thesis
  proof (cases "i < length (mtx_tasks s)")
    case False
    with HandlerWakes assms show ?thesis by (simp add: mediamtx_step_def)
  next
    case True
    let ?rest = "take i (mtx_tasks s) @ drop (Suc i) (mtx_tasks s)"
    have "set ?rest \<subseteq> set (mtx_tasks s)"
      by (auto dest: in_set_takeD in_set_dropD)
    with assms(1) have rest: "\<not> list_ex is_restart ?rest"
      by (auto simp add: settled_def list_ex_iff)
    from assms(1) True have "\<not> is_restart (mtx_tasks s ! i)"
      by (auto simp add: settled_def list_ex_iff)
    then obtain p where t: "mtx_tasks s ! i = CloseSleep1 p"
      by (cases "mtx_tasks s ! i") simp_all
    from assms(1) rest show ?thesis
      by (simp add: HandlerWakes True mediamtx_step_def t settled_def)
  qed
next
  case Shutdown
  with assms show ?thesis
    by (simp add: mediamtx_step_def mediamtx_shutdown_def settled_def Let_def
        split: option.splits)
qed

lemma settled_run:
  assumes "settled s" and "Init \<notin> set es"
  shows "settled (mediamtx_run es s) \<and> spawned (mediamtx_run es s) = spawned s"
  using assms
proof (induction es arbitrary: s)
  case Nil
  then show ?case by simp
next
  case (Cons e es)
  then have "e \<noteq> Init" and "Init \<notin> set es" by auto
  from settled_step [OF Cons.prems(1) this(1)] Cons.IH [OF _ this(2)]
  show ?case by simp
qed

lemma shutdown_settles:
  assumes "\<not> list_ex is_restart (mtx_tasks s)"
  shows "settled (mediamtx_step Shutdown s)"
  using assms
  by (simp add: mediamtx_step_def mediamtx_shutdown_def settled_def Let_def
      split: option.splits)

lemma crash_restarts_once:
  assumes "started s \<noteq> Started_shutdown" and "mediamtxProcess s = Some q"
  shows "mediamtx_resume (CloseSleep1 p) s =
           s\<lparr>kills := kills s @ [(q, SIGKILL)], mtx_tasks := mtx_tasks s @ [RestartSleep5 p]\<rparr>"
    and "spawned (mediamtx_resume (RestartSleep5 p) s) = Suc (spawned s)"
  using assms by (simp_all add: mediamtx_init_def)

end
